theory Spec2Isabelle
  imports Complex_Main
begin

section \<open>Python numbers\<close>

text \<open>
  Every number that \<^verbatim>\<open>track_canvas_qt.py\<close> computes with is a Python \<^verbatim>\<open>float\<close>, an IEEE 754
  binary64 value: \<^verbatim>\<open>scale_x\<close> and \<^verbatim>\<open>scale_y\<close> are \<^verbatim>\<open>1.0\<close> or the result of a true
  division, and an \<^verbatim>\<open>int\<close> operand (a pixel coordinate, the offset \<^verbatim>\<open>0\<close>) is converted to
  a float before the operation. A finite float is modelled by the rational number it
  denotes; the two zeros are one value, since Python's \<^verbatim>\<open>==\<close>, \<^verbatim>\<open>+\<close>, \<^verbatim>\<open>-\<close>, \<^verbatim>\<open>*\<close>
  and its raising \<^verbatim>\<open>/\<close> do not tell them apart.
\<close>

datatype pyfloat = Fin rat | PInf | NInf | NaN

datatype exn =
    ZeroDivisionError
  | OverflowError
  | ValueError
  | AttributeError
  | OtherError

text \<open>The number of binary digits of a positive integer (Python's \<^verbatim>\<open>int.bit_length\<close>).\<close>

function bit_length :: "int \<Rightarrow> int" where
  "bit_length n = (if n \<le> 0 then 0 else 1 + bit_length (n div 2))"
  by pat_completeness auto
termination
  by (relation "measure nat") auto

declare bit_length.simps [simp del]

definition pow2 :: "int \<Rightarrow> rat" where
  "pow2 e = (if 0 \<le> e then 2 ^ nat e else 1 / 2 ^ nat (- e))"

text \<open>
  \<open>ilog2 q\<close> is the binary exponent of a positive rational: \<open>2 ^ ilog2 q \<le> q < 2 ^ (ilog2 q + 1)\<close>.
  The difference of the bit lengths of numerator and denominator is that exponent or one more.
\<close>

definition ilog2 :: "rat \<Rightarrow> int" where
  "ilog2 q = (let (a, b) = quotient_of q;
                  k = bit_length a - bit_length b
              in if pow2 k \<le> q then k else k - 1)"

definition round_half_even :: "rat \<Rightarrow> int" where
  "round_half_even m =
     (let f = \<lfloor>m\<rfloor>; d = m - of_int f
      in if d < 1 / 2 then f
         else if 1 / 2 < d then f + 1
         else if even f then f else f + 1)"

text \<open>
  Rounding of an exact result to binary64, to nearest with ties to even: 53 significant bits,
  the exponent not below \<open>-1022\<close> (gradual underflow), and an infinity when the rounded value
  needs an exponent above \<open>1023\<close>.
\<close>

definition round_double :: "rat \<Rightarrow> pyfloat" where
  "round_double q =
     (if q = 0 then Fin 0
      else let e = max (ilog2 \<bar>q\<bar>) (- 1022);
               ulp = pow2 (e - 52);
               r = of_int (round_half_even (q / ulp)) * ulp
           in if 1024 \<le> ilog2 \<bar>r\<bar> then (if 0 < q then PInf else NInf) else Fin r)"


instantiation pyfloat :: "{uminus, plus, minus, times}"
begin

fun uminus_pyfloat :: "pyfloat \<Rightarrow> pyfloat" where
  "uminus_pyfloat (Fin a) = Fin (- a)"
| "uminus_pyfloat PInf = NInf"
| "uminus_pyfloat NInf = PInf"
| "uminus_pyfloat NaN = NaN"

fun plus_pyfloat :: "pyfloat \<Rightarrow> pyfloat \<Rightarrow> pyfloat" where
  "plus_pyfloat (Fin a) (Fin b) = round_double (a + b)"
| "plus_pyfloat NaN _ = NaN"
| "plus_pyfloat _ NaN = NaN"
| "plus_pyfloat PInf NInf = NaN"
| "plus_pyfloat NInf PInf = NaN"
| "plus_pyfloat PInf _ = PInf"
| "plus_pyfloat NInf _ = NInf"
| "plus_pyfloat (Fin a) PInf = PInf"
| "plus_pyfloat (Fin a) NInf = NInf"

definition minus_pyfloat :: "pyfloat \<Rightarrow> pyfloat \<Rightarrow> pyfloat" where
  "minus_pyfloat a b = a + (- b)"

definition inf_signed :: "bool \<Rightarrow> pyfloat" where
  "inf_signed positive = (if positive then PInf else NInf)"

fun times_pyfloat :: "pyfloat \<Rightarrow> pyfloat \<Rightarrow> pyfloat" where
  "times_pyfloat (Fin a) (Fin b) = round_double (a * b)"
| "times_pyfloat NaN _ = NaN"
| "times_pyfloat _ NaN = NaN"
| "times_pyfloat (Fin a) PInf = (if a = 0 then NaN else inf_signed (0 < a))"
| "times_pyfloat (Fin a) NInf = (if a = 0 then NaN else inf_signed (a < 0))"
| "times_pyfloat PInf (Fin b) = (if b = 0 then NaN else inf_signed (0 < b))"
| "times_pyfloat NInf (Fin b) = (if b = 0 then NaN else inf_signed (b < 0))"
| "times_pyfloat PInf PInf = PInf"
| "times_pyfloat PInf NInf = NInf"
| "times_pyfloat NInf PInf = NInf"
| "times_pyfloat NInf NInf = PInf"

instance ..

end

text \<open>
  Python's \<^verbatim>\<open>/\<close> on floats raises \<^verbatim>\<open>ZeroDivisionError\<close> when the divisor is zero, whatever
  the dividend is.
\<close>

fun truediv :: "pyfloat \<Rightarrow> pyfloat \<Rightarrow> exn + pyfloat" where
  "truediv a (Fin b) =
     (if b = 0 then Inl ZeroDivisionError
      else Inr (case a of
                  Fin x \<Rightarrow> round_double (x / b)
                | PInf \<Rightarrow> inf_signed (0 < b)
                | NInf \<Rightarrow> inf_signed (b < 0)
                | NaN \<Rightarrow> NaN))"
| "truediv a NaN = Inr NaN"
| "truediv (Fin x) _ = Inr (Fin 0)"
| "truediv NaN _ = Inr NaN"
| "truediv _ _ = Inr NaN"

text \<open>
  Python's \<^verbatim>\<open>/\<close> on two ints: the correctly rounded quotient, \<^verbatim>\<open>ZeroDivisionError\<close> for a
  zero divisor and \<^verbatim>\<open>OverflowError\<close> when the quotient is too large for a float.
\<close>

definition int_truediv :: "int \<Rightarrow> int \<Rightarrow> exn + pyfloat" where
  "int_truediv a b =
     (if b = 0 then Inl ZeroDivisionError
      else case round_double (of_int a / of_int b) of
             Fin r \<Rightarrow> Inr (Fin r)
           | _ \<Rightarrow> Inl OverflowError)"

text \<open>
  The conversion of an integer operand in mixed arithmetic. The integers of this program are
  pixel coordinates and image sizes (C ints of Qt, numpy \<^verbatim>\<open>int32\<close>), far below \<open>2 ^ 53\<close>, so
  the conversion is exact and never overflows.
\<close>

definition float_of_int :: "int \<Rightarrow> pyfloat" where
  "float_of_int n = round_double (of_int n)"

text \<open>The sizes that Qt reports are C ints.\<close>

definition c_int :: "int \<Rightarrow> bool" where
  "c_int n \<longleftrightarrow> - (2 ^ 31) \<le> n \<and> n < 2 ^ 31"

text \<open>Python's \<^verbatim>\<open>>\<close> on floats: false whenever an operand is NaN.\<close>

fun float_gt :: "pyfloat \<Rightarrow> pyfloat \<Rightarrow> bool" where
  "float_gt NaN _ = False"
| "float_gt _ NaN = False"
| "float_gt (Fin a) (Fin b) = (b < a)"
| "float_gt PInf PInf = False"
| "float_gt PInf _ = True"
| "float_gt NInf _ = False"
| "float_gt (Fin a) PInf = False"
| "float_gt (Fin a) NInf = True"

section \<open>The canvas and its collaborators\<close>

type_synonym point = "pyfloat \<times> pyfloat"

datatype qpointf = QPointF (qx: pyfloat) (qy: pyfloat)

datatype qpoint = QPoint (px: int) (py: int)

text \<open>
  An element of the centerline or of a boundary is a \<^verbatim>\<open>QPointF\<close> or a raw coordinate
  sequence read with \<^verbatim>\<open>pt[0]\<close>, \<^verbatim>\<open>pt[1]\<close>.
\<close>

datatype path_point = Qt_point qpointf | Raw_point pyfloat pyfloat

record qimage =
  width :: int
  height :: int
  pixel_data :: "int list"

record ndarray =
  shape :: "int \<times> int"
  array_data :: "int list"

text \<open>A contour of \<^verbatim>\<open>cv2.findContours\<close>: an array of shape \<open>(N, 1, 2)\<close> of integer points.\<close>

type_synonym contour = "(int \<times> int) list"

record 'g canvas =
  scale_x :: pyfloat
  scale_y :: pyfloat
  offset_x :: pyfloat
  offset_y :: pyfloat
  sat_image :: qimage
  sat_pixmap :: qimage
  binary_map :: ndarray
  obstacle_polygons :: "point list list"
  free_region :: "'g option"
  original_obstacle_polygons :: "point list list"
  original_free_region :: "'g option"
  control_points :: "qpointf list"
  centerline :: "path_point list option"
  left_boundary :: "path_point list option"
  right_boundary :: "path_point list option"
  boundaries_swapped :: bool

text \<open>What the canvas reads of its parent controller.\<close>

record parent =
  fpath_location_sat_img :: string
  fpath_location_occup_img :: string
  backoff_entry_text :: string
  min_boundary_backoff :: pyfloat
  px_per_m :: pyfloat
  cone_spacing_entry_text :: string
  default_cone_distance :: pyfloat
  dragging :: bool

section \<open>Coordinate transforms\<close>

definition transform_point :: "'g canvas \<Rightarrow> pyfloat \<Rightarrow> pyfloat \<Rightarrow> point" where
  "transform_point c map_x map_y =
     (map_x * scale_x c + offset_x c, map_y * scale_y c + offset_y c)"

text \<open>The tuple is built left to right, so a zero \<open>scale_x\<close> raises first.\<close>

definition inverse_transform_point :: "'g canvas \<Rightarrow> pyfloat \<Rightarrow> pyfloat \<Rightarrow> exn + point" where
  "inverse_transform_point c display_x display_y =
     (case truediv (display_x - offset_x c) (scale_x c) of
        Inl e \<Rightarrow> Inl e
      | Inr mx \<Rightarrow>
          (case truediv (display_y - offset_y c) (scale_y c) of
             Inl e \<Rightarrow> Inl e
           | Inr my \<Rightarrow> Inr (mx, my)))"

definition transform_polygon :: "'g canvas \<Rightarrow> point list \<Rightarrow> point list" where
  "transform_polygon c polygon = map (\<lambda>p. transform_point c (fst p) (snd p)) polygon"




section \<open>External libraries\<close>

text \<open>
  Qt, OpenCV, shapely, Python's \<^verbatim>\<open>float()\<close> and the helper \<^verbatim>\<open>utils_qt.sample_cones\<close> are
  not part of \<^verbatim>\<open>track_canvas_qt.py\<close>: what they compute is a parameter of the model. \<open>'g\<close>
  is the type of shapely geometries.
  \<^item> \<open>QPixmap_scaled p w h\<close> is \<^verbatim>\<open>p.scaled(w, h, Qt.KeepAspectRatio, Qt.SmoothTransformation)\<close>;
  \<^item> \<open>cv2_imread\<close> returns \<open>None\<close> for a file it cannot read;
  \<^item> \<open>geom_buffer g d\<close> is \<^verbatim>\<open>g.buffer(d)\<close> for a finite distance, and may raise;
  \<^item> \<open>Polygon\<close> may raise; \<open>geom_bool\<close> is the truth value of a geometry;
  \<^item> \<open>geom_exterior g\<close> is \<^verbatim>\<open>g.exterior\<close>, read as its coordinate list: it raises
    \<^verbatim>\<open>AttributeError\<close> on a geometry without that attribute (a \<^verbatim>\<open>MultiPolygon\<close>);
  \<^item> \<open>float_of_text\<close> is \<^verbatim>\<open>float(text)\<close>, raising \<^verbatim>\<open>ValueError\<close> for a text that is no number.
\<close>

record 'g extern =
  QImage_load :: "string \<Rightarrow> qimage"
  QPixmap_fromImage :: "qimage \<Rightarrow> qimage"
  QPixmap_scaled :: "qimage \<Rightarrow> int \<Rightarrow> int \<Rightarrow> qimage"
  cv2_imread :: "string \<Rightarrow> ndarray option"
  cv2_threshold :: "ndarray \<Rightarrow> ndarray"
  cv2_findContours :: "ndarray \<Rightarrow> contour list"
  cv2_contourArea :: "contour \<Rightarrow> pyfloat"
  Polygon :: "point list \<Rightarrow> exn + 'g"
  geom_is_valid :: "'g \<Rightarrow> bool"
  geom_is_empty :: "'g \<Rightarrow> bool"
  geom_bool :: "'g \<Rightarrow> bool"
  geom_buffer :: "'g \<Rightarrow> pyfloat \<Rightarrow> exn + 'g"
  geom_exterior :: "'g \<Rightarrow> exn + point list option"
  sample_cones :: "point list \<Rightarrow> pyfloat \<Rightarrow> pyfloat \<Rightarrow> point list"
  float_of_text :: "string \<Rightarrow> exn + pyfloat"

section \<open>Contours and polygons\<close>

text \<open>
  \<^verbatim>\<open>cnt.squeeze()\<close> drops the axes of length one of the \<open>(N, 1, 2)\<close> array: a contour of one
  point becomes the 1-D array of its two coordinates, any other contour an \<open>(N, 2)\<close> array.
\<close>

datatype squeezed = Vec "int list" | Mat "(int \<times> int) list"

definition squeeze :: "contour \<Rightarrow> squeezed" where
  "squeeze cnt = (case cnt of [p] \<Rightarrow> Vec [fst p, snd p] | _ \<Rightarrow> Mat cnt)"

fun ndim :: "squeezed \<Rightarrow> nat" where
  "ndim (Vec v) = 1"
| "ndim (Mat rows) = 2"

fun len :: "squeezed \<Rightarrow> nat" where
  "len (Vec v) = length v"
| "len (Mat rows) = length rows"

text \<open>\<^verbatim>\<open>max(xs, key=f)\<close>: the first element whose key no later element exceeds.\<close>

fun max_from :: "('a \<Rightarrow> pyfloat) \<Rightarrow> 'a \<Rightarrow> 'a list \<Rightarrow> 'a" where
  "max_from key best [] = best"
| "max_from key best (x # xs) =
     (if float_gt (key x) (key best) then max_from key x xs else max_from key best xs)"

definition py_max :: "('a \<Rightarrow> pyfloat) \<Rightarrow> 'a list \<Rightarrow> exn + 'a" where
  "py_max key xs = (case xs of [] \<Rightarrow> Inl ValueError | x # rest \<Rightarrow> Inr (max_from key x rest))"

text \<open>The comprehension \<^verbatim>\<open>[self.transform_point(p[0], p[1]) for p in pts]\<close> on integer points.\<close>

definition scaled_pts :: "'g canvas \<Rightarrow> (int \<times> int) list \<Rightarrow> point list" where
  "scaled_pts c pts = map (\<lambda>p. transform_point c (float_of_int (fst p)) (float_of_int (snd p))) pts"

fun obstacle_loop :: "'g canvas \<Rightarrow> contour list \<Rightarrow> point list list \<Rightarrow> point list list" where
  "obstacle_loop c [] polys = polys"
| "obstacle_loop c (cnt # contours) polys =
     (case squeeze cnt of
        Vec v \<Rightarrow> obstacle_loop c contours polys
      | Mat pts \<Rightarrow> obstacle_loop c contours (polys @ [scaled_pts c pts]))"

definition extract_obstacle_polygons :: "'g extern \<Rightarrow> 'g canvas \<Rightarrow> ndarray \<Rightarrow> point list list" where
  "extract_obstacle_polygons env c bm = obstacle_loop c (cv2_findContours env bm) []"

text \<open>
  The points handed to \<^verbatim>\<open>Polygon\<close>: the first point is appended when the last one differs
  from it (\<^verbatim>\<open>np.array_equal(pts[0], pts[-1])\<close>, \<^verbatim>\<open>np.vstack\<close>).
\<close>

definition closed_ring :: "(int \<times> int) list \<Rightarrow> (int \<times> int) list" where
  "closed_ring pts = (if hd pts \<noteq> last pts then pts @ [hd pts] else pts)"

text \<open>
  The handler \<^verbatim>\<open>except Exception\<close> turns every exception of the polygon construction into
  \<open>None\<close>; the message it prints is not part of the model.
\<close>

definition extract_free_region :: "'g extern \<Rightarrow> 'g canvas \<Rightarrow> ndarray \<Rightarrow> 'g option" where
  "extract_free_region env c bm =
     (let contours = cv2_findContours env bm in
      if contours = [] then None
      else case py_max (cv2_contourArea env) contours of
             Inl e \<Rightarrow> None
           | Inr largest \<Rightarrow>
               (let pts = squeeze largest in
                if ndim pts = 1 \<or> len pts < 3 then None
                else case pts of
                       Vec v \<Rightarrow> None
                     | Mat rows \<Rightarrow>
                         (case Polygon env (scaled_pts c (closed_ring rows)) of
                            Inl e \<Rightarrow> None
                          | Inr poly \<Rightarrow>
                              if \<not> geom_is_valid env poly \<or> geom_is_empty env poly then None
                              else Some poly)))"

section \<open>Construction and state changes\<close>

text \<open>
  Everything the canvas does to the outside world: the calls on its \<^verbatim>\<open>QPainter\<close>, the call of
  \<^verbatim>\<open>sample_cones\<close>, the calls of the parent's handlers and the repaint request
  \<^verbatim>\<open>self.update()\<close>.
\<close>

datatype color = QColor int int int

datatype pen_style = SolidLine | DashLine

datatype pen = QPen color int pen_style

datatype effect =
    SetRenderHint_Antialiasing
  | DrawPixmap int int qimage
  | SetPen pen
  | SetBrush color
  | DrawPolygon "qpointf list"
  | DrawEllipse qpointf int int
  | DrawLine qpointf qpointf
  | DrawPolyline "qpointf list"
  | Call_sample_cones "point list" pyfloat pyfloat
  | Handle_canvas_click qpointf
  | Handle_canvas_drag qpointf
  | Handle_canvas_release qpoint
  | Update

text \<open>
  A method returns the canvas as it leaves it, what it did, and the exception it raised, if
  any: an assignment made before a raise stays made.
\<close>

type_synonym 'g outcome = "'g canvas \<times> effect list \<times> exn option"

definition calculate_scaling_factors :: "'g canvas \<Rightarrow> 'g outcome" where
  "calculate_scaling_factors c =
     (let sat_width = width (sat_image c);
          sat_height = height (sat_image c);
          (occ_height, occ_width) = shape (binary_map c)
      in case int_truediv sat_width occ_width of
           Inl e \<Rightarrow> (c, [], Some e)
         | Inr sx \<Rightarrow>
             (case int_truediv sat_height occ_height of
                Inl e \<Rightarrow> (c\<lparr>scale_x := sx\<rparr>, [], Some e)
              | Inr sy \<Rightarrow> (c\<lparr>scale_x := sx, scale_y := sy\<rparr>, [], None)))"

text \<open>
  \<^verbatim>\<open>__init__\<close>. The attributes are assigned in the order of the source; the contours are
  extracted while the scale is still \<open>1.0\<close> and the offset \<open>0\<close>. For an occupancy image
  that cannot be read \<^verbatim>\<open>cv2.imread\<close> returns \<open>None\<close>, \<^verbatim>\<open>cv2.threshold\<close> hands it on as
  \<open>binary_map\<close>, no contour is found in it, and \<open>calculate_scaling_factors\<close> raises
  \<^verbatim>\<open>AttributeError\<close> at \<^verbatim>\<open>self.binary_map.shape\<close>: no canvas is constructed.
\<close>

definition init :: "'g extern \<Rightarrow> parent \<Rightarrow> exn + 'g canvas" where
  "init env par =
     (let image = QImage_load env (fpath_location_sat_img par);
          pixmap = QPixmap_fromImage env image
      in case cv2_imread env (fpath_location_occup_img par) of
           None \<Rightarrow> Inl AttributeError
         | Some occ_img \<Rightarrow>
             (let bm = cv2_threshold env occ_img;
                  c0 = \<lparr> scale_x = Fin 1, scale_y = Fin 1, offset_x = Fin 0, offset_y = Fin 0,
                         sat_image = image, sat_pixmap = pixmap, binary_map = bm,
                         obstacle_polygons = [], free_region = None,
                         original_obstacle_polygons = [], original_free_region = None,
                         control_points = [], centerline = None, left_boundary = None,
                         right_boundary = None, boundaries_swapped = False \<rparr>;
                  c1 = c0\<lparr>obstacle_polygons := extract_obstacle_polygons env c0 bm\<rparr>;
                  c2 = c1\<lparr>free_region := extract_free_region env c1 bm\<rparr>;
                  c3 = c2\<lparr>original_obstacle_polygons := extract_obstacle_polygons env c2 bm\<rparr>;
                  c4 = c3\<lparr>original_free_region := extract_free_region env c3 bm\<rparr>
              in case calculate_scaling_factors c4 of
                   (c5, es, Some e) \<Rightarrow> Inl e
                 | (c5, es, None) \<Rightarrow>
                     Inr (c5\<lparr>control_points := [], centerline := None, left_boundary := None,
                              right_boundary := None, boundaries_swapped := False\<rparr>)))"

definition update_drawing ::
  "'g canvas \<Rightarrow> qpointf list \<Rightarrow> path_point list option \<Rightarrow> path_point list option
    \<Rightarrow> path_point list option \<Rightarrow> bool \<Rightarrow> 'g outcome" where
  "update_drawing c new_control_points new_centerline new_left_boundary new_right_boundary
       new_boundaries_swapped =
     (c\<lparr>control_points := new_control_points,
        centerline := new_centerline,
        left_boundary := new_left_boundary,
        right_boundary := new_right_boundary,
        boundaries_swapped := new_boundaries_swapped\<rparr>,
      [Update], None)"

section \<open>Painting\<close>

definition to_qpointf :: "point \<Rightarrow> qpointf" where
  "to_qpointf p = QPointF (fst p) (snd p)"

text \<open>What a block of \<^verbatim>\<open>paintEvent\<close> does, and the exception that ended it, if any.\<close>

type_synonym painted = "effect list \<times> exn option"

fun in_sequence :: "painted list \<Rightarrow> painted" where
  "in_sequence [] = ([], None)"
| "in_sequence ((es, Some e) # blocks) = (es, Some e)"
| "in_sequence ((es, None) # blocks) =
     (case in_sequence blocks of (es', r) \<Rightarrow> (es @ es', r))"

text \<open>
  \<^verbatim>\<open>try: v = float(entry.text())\<close> with the handler \<^verbatim>\<open>except ValueError: v = fallback\<close>; any
  other exception is not caught.
\<close>

definition entry_value :: "'g extern \<Rightarrow> string \<Rightarrow> pyfloat \<Rightarrow> exn + pyfloat" where
  "entry_value env text fallback =
     (case float_of_text env text of
        Inr v \<Rightarrow> Inr v
      | Inl e \<Rightarrow> if e = ValueError then Inr fallback else Inl e)"

definition draw_obstacles :: "'g canvas \<Rightarrow> effect list" where
  "draw_obstacles c =
     SetPen (QPen (QColor 255 0 0) 2 SolidLine)
     # map (\<lambda>poly. DrawPolygon (map to_qpointf (transform_polygon c poly)))
         (original_obstacle_polygons c)"

text \<open>
  \<^verbatim>\<open>region.buffer(distance)\<close>: shapely refuses a distance that is not finite with
  \<^verbatim>\<open>ValueError\<close>; for a finite distance the result, or the exception, is the library's.
\<close>

definition buffer :: "'g extern \<Rightarrow> 'g \<Rightarrow> pyfloat \<Rightarrow> exn + 'g" where
  "buffer env region distance =
     (case distance of
        Fin d \<Rightarrow> geom_buffer env region distance
      | _ \<Rightarrow> Inl ValueError)"

text \<open>
  The block of the safe backoff region. Only the conversion of the entry text is inside the
  \<^verbatim>\<open>try\<close>: an exception of \<^verbatim>\<open>buffer\<close> or of \<^verbatim>\<open>exterior\<close> leaves \<open>paintEvent\<close>.
\<close>

definition draw_safe_region :: "'g extern \<Rightarrow> 'g canvas \<Rightarrow> parent \<Rightarrow> painted" where
  "draw_safe_region env c par =
     (case entry_value env (backoff_entry_text par) (min_boundary_backoff par) of
        Inl e \<Rightarrow> ([], Some e)
      | Inr backoff_val \<Rightarrow>
          (let backoff_px = backoff_val * px_per_m par in
           case free_region c of
             None \<Rightarrow> ([], None)
           | Some region \<Rightarrow>
               (case buffer env region (- backoff_px) of
                  Inl e \<Rightarrow> ([], Some e)
                | Inr safe_region \<Rightarrow>
                    if geom_bool env safe_region \<and> \<not> geom_is_empty env safe_region
                    then case geom_exterior env safe_region of
                           Inl e \<Rightarrow> ([], Some e)
                         | Inr None \<Rightarrow> ([], None)
                         | Inr (Some coords) \<Rightarrow>
                             if 4 \<le> length coords
                             then ([SetPen (QPen (QColor 255 0 255) 2 DashLine),
                                    DrawPolygon
                                      (map (\<lambda>p. to_qpointf (transform_point c (fst p) (snd p)))
                                         coords)],
                                   None)
                             else ([], None)
                    else ([], None))))"

definition control_point_color :: "nat \<Rightarrow> nat \<Rightarrow> color" where
  "control_point_color i n =
     (if i = 0 \<and> 2 < n then QColor 255 0 0
      else if i = n - 1 \<and> 2 < n then QColor 0 0 255
      else QColor 0 255 0)"

definition draw_control_points :: "'g canvas \<Rightarrow> effect list" where
  "draw_control_points c =
     concat (map (\<lambda>(i, pt).
                    [SetBrush (control_point_color i (length (control_points c))),
                     SetPen (QPen (QColor 0 0 0) 1 SolidLine),
                     DrawEllipse (to_qpointf (transform_point c (qx pt) (qy pt))) 5 5])
                 (enumerate 0 (control_points c)))"

text \<open>
  The test \<^verbatim>\<open>if path and len(path) > 1\<close> on the centerline or a boundary: \<open>None\<close> and the
  empty list are false.
\<close>

definition drawable :: "path_point list option \<Rightarrow> bool" where
  "drawable path = (case path of None \<Rightarrow> False | Some pts \<Rightarrow> pts \<noteq> [] \<and> 1 < length pts)"

fun path_xy :: "path_point \<Rightarrow> point" where
  "path_xy (Qt_point pt) = (qx pt, qy pt)"
| "path_xy (Raw_point x y) = (x, y)"

fun display_point :: "'g canvas \<Rightarrow> path_point \<Rightarrow> qpointf" where
  "display_point c (Qt_point pt) = to_qpointf (transform_point c (qx pt) (qy pt))"
| "display_point c (Raw_point x y) = to_qpointf (transform_point c x y)"

definition draw_centerline :: "'g canvas \<Rightarrow> effect list" where
  "draw_centerline c =
     (case centerline c of
        None \<Rightarrow> []
      | Some pts \<Rightarrow>
          if drawable (Some pts)
          then (let display_points = map (display_point c) pts in
                SetPen (QPen (QColor 0 255 0) 2 DashLine)
                # map (\<lambda>i. DrawLine (display_points ! (i - 1)) (display_points ! i))
                    [1 ..< length display_points])
          else [])"

definition draw_boundary :: "'g canvas \<Rightarrow> path_point list option \<Rightarrow> color \<Rightarrow> effect list" where
  "draw_boundary c boundary boundary_color =
     (case boundary of
        None \<Rightarrow> []
      | Some pts \<Rightarrow>
          if drawable (Some pts)
          then [SetPen (QPen boundary_color 2 SolidLine), DrawPolyline (map (display_point c) pts)]
          else [])"

definition draw_cones ::
  "'g extern \<Rightarrow> 'g canvas \<Rightarrow> parent \<Rightarrow> path_point list option \<Rightarrow> pyfloat \<Rightarrow> color \<Rightarrow> effect list" where
  "draw_cones env c par boundary cone_spacing cone_color =
     (case boundary of
        None \<Rightarrow> []
      | Some pts \<Rightarrow>
          if drawable (Some pts)
          then (let boundary_points = map path_xy pts;
                    cones = sample_cones env boundary_points cone_spacing (px_per_m par)
                in Call_sample_cones boundary_points cone_spacing (px_per_m par)
                   # SetBrush cone_color
                   # SetPen (QPen (QColor 0 0 0) 1 SolidLine)
                   # map (\<lambda>pt. DrawEllipse (to_qpointf (transform_point c (fst pt) (snd pt))) 3 3)
                       cones)
          else [])"

definition draw_all_cones :: "'g extern \<Rightarrow> 'g canvas \<Rightarrow> parent \<Rightarrow> painted" where
  "draw_all_cones env c par =
     (case entry_value env (cone_spacing_entry_text par) (default_cone_distance par) of
        Inl e \<Rightarrow> ([], Some e)
      | Inr cone_spacing \<Rightarrow>
          (draw_cones env c par (left_boundary c) cone_spacing
             (if boundaries_swapped c then QColor 255 255 0 else QColor 0 0 255)
           @ draw_cones env c par (right_boundary c) cone_spacing
               (if boundaries_swapped c then QColor 0 0 255 else QColor 255 255 0),
           None))"

text \<open>Everything \<^verbatim>\<open>paintEvent\<close> draws over the image, once the scale is set.\<close>

definition paint_overlays :: "'g extern \<Rightarrow> 'g canvas \<Rightarrow> parent \<Rightarrow> painted" where
  "paint_overlays env c par =
     in_sequence
       [(draw_obstacles c, None),
        draw_safe_region env c par,
        (draw_control_points c, None),
        (draw_centerline c, None),
        (draw_boundary c (left_boundary c)
           (if \<not> boundaries_swapped c then QColor 0 0 255 else QColor 255 255 0), None),
        (draw_boundary c (right_boundary c)
           (if \<not> boundaries_swapped c then QColor 255 255 0 else QColor 0 0 255), None),
        draw_all_cones env c par]"

text \<open>
  \<open>paintEvent env c par w h\<close>: the widget is \<open>w\<close> by \<open>h\<close> pixels. \<open>shape[1]\<close> is the width
  of the occupancy map and \<open>shape[0]\<close> its height.
\<close>

definition paintEvent :: "'g extern \<Rightarrow> 'g canvas \<Rightarrow> parent \<Rightarrow> int \<Rightarrow> int \<Rightarrow> 'g outcome" where
  "paintEvent env c par widget_width widget_height =
     (let scaled_pixmap = QPixmap_scaled env (sat_pixmap c) widget_width widget_height;
          image_drawn = [SetRenderHint_Antialiasing, DrawPixmap 0 0 scaled_pixmap]
      in case int_truediv (width scaled_pixmap) (snd (shape (binary_map c))) of
           Inl e \<Rightarrow> (c, image_drawn, Some e)
         | Inr sx \<Rightarrow>
             (case int_truediv (height scaled_pixmap) (fst (shape (binary_map c))) of
                Inl e \<Rightarrow> (c\<lparr>scale_x := sx\<rparr>, image_drawn, Some e)
              | Inr sy \<Rightarrow>
                  (let c' = c\<lparr>scale_x := sx, scale_y := sy\<rparr>
                   in case paint_overlays env c' par of
                        (es, r) \<Rightarrow> (c', image_drawn @ es, r))))"

section \<open>Mouse events\<close>

definition mousePressEvent :: "'g canvas \<Rightarrow> qpoint \<Rightarrow> 'g outcome" where
  "mousePressEvent c pos =
     (case inverse_transform_point c (float_of_int (px pos)) (float_of_int (py pos)) of
        Inl e \<Rightarrow> (c, [], Some e)
      | Inr (map_x, map_y) \<Rightarrow> (c, [Handle_canvas_click (QPointF map_x map_y)], None))"

definition mouseMoveEvent :: "'g canvas \<Rightarrow> parent \<Rightarrow> qpoint \<Rightarrow> 'g outcome" where
  "mouseMoveEvent c par pos =
     (if dragging par
      then case inverse_transform_point c (float_of_int (px pos)) (float_of_int (py pos)) of
             Inl e \<Rightarrow> (c, [], Some e)
           | Inr (map_x, map_y) \<Rightarrow> (c, [Handle_canvas_drag (QPointF map_x map_y)], None)
      else (c, [], None))"

definition mouseReleaseEvent :: "'g canvas \<Rightarrow> qpoint \<Rightarrow> 'g outcome" where
  "mouseReleaseEvent c pos = (c, [Handle_canvas_release pos], None)"

section \<open>Histories of the canvas\<close>

text \<open>
  The methods that can be called on a constructed canvas. The parent's handlers run outside
  this file; when one of them calls \<^verbatim>\<open>update_drawing\<close>, that is the next call of the history.
  Every call comes with the parent's state at that moment.
\<close>

datatype canvas_call =
    Calculate_scaling_factors
  | Transform_point pyfloat pyfloat
  | Inverse_transform_point pyfloat pyfloat
  | Transform_polygon "point list"
  | Extract_obstacle_polygons ndarray
  | Extract_free_region ndarray
  | Update_drawing "qpointf list" "path_point list option" "path_point list option"
      "path_point list option" bool
  | PaintEvent int int
  | MousePressEvent qpoint
  | MouseMoveEvent qpoint
  | MouseReleaseEvent qpoint

fun perform :: "'g extern \<Rightarrow> 'g canvas \<Rightarrow> parent \<times> canvas_call \<Rightarrow> 'g outcome" where
  "perform env c (par, Calculate_scaling_factors) = calculate_scaling_factors c"
| "perform env c (par, Transform_point x y) = (c, [], None)"
| "perform env c (par, Inverse_transform_point x y) =
     (case inverse_transform_point c x y of Inl e \<Rightarrow> (c, [], Some e) | Inr p \<Rightarrow> (c, [], None))"
| "perform env c (par, Transform_polygon polygon) = (c, [], None)"
| "perform env c (par, Extract_obstacle_polygons bm) = (c, [], None)"
| "perform env c (par, Extract_free_region bm) = (c, [], None)"
| "perform env c (par, Update_drawing cps cl lb rb sw) = update_drawing c cps cl lb rb sw"
| "perform env c (par, PaintEvent w h) = paintEvent env c par w h"
| "perform env c (par, MousePressEvent pos) = mousePressEvent c pos"
| "perform env c (par, MouseMoveEvent pos) = mouseMoveEvent c par pos"
| "perform env c (par, MouseReleaseEvent pos) = mouseReleaseEvent c pos"

text \<open>
  The state after a history. A call that raises leaves the state it reached; histories that
  go on after it only add states.
\<close>

fun run :: "'g extern \<Rightarrow> 'g canvas \<Rightarrow> (parent \<times> canvas_call) list \<Rightarrow> 'g canvas" where
  "run env c [] = c"
| "run env c (call # calls) = run env (fst (perform env c call)) calls"

text \<open>The boundaries that the last \<^verbatim>\<open>update_drawing\<close> of a history passed in.\<close>

fun last_passed ::
  "path_point list option \<times> path_point list option \<Rightarrow> (parent \<times> canvas_call) list
    \<Rightarrow> path_point list option \<times> path_point list option" where
  "last_passed bs [] = bs"
| "last_passed bs ((par, Update_drawing cps cl lb rb sw) # calls) = last_passed (lb, rb) calls"
| "last_passed bs (call # calls) = last_passed bs calls"

section \<open>Reading what was painted\<close>

text \<open>
  The polygons of a sequence of painter calls, each with the pen in force when it is drawn;
  \<open>p\<close> is the pen before the first call.
\<close>

fun pen_after :: "pen \<Rightarrow> effect list \<Rightarrow> pen" where
  "pen_after p [] = p"
| "pen_after p (SetPen q # es) = pen_after q es"
| "pen_after p (e # es) = pen_after p es"

fun polygons_drawn :: "pen \<Rightarrow> effect list \<Rightarrow> (pen \<times> qpointf list) list" where
  "polygons_drawn p [] = []"
| "polygons_drawn p (SetPen q # es) = polygons_drawn q es"
| "polygons_drawn p (DrawPolygon polygon # es) = (p, polygon) # polygons_drawn p es"
| "polygons_drawn p (e # es) = polygons_drawn p es"

text \<open>The polygons drawn with the dashed magenta pen of the safe backoff region.\<close>

definition safe_region_polygons :: "pen \<Rightarrow> effect list \<Rightarrow> qpointf list list" where
  "safe_region_polygons p es =
     map snd (filter (\<lambda>d. fst d = QPen (QColor 255 0 255) 2 DashLine) (polygons_drawn p es))"

text \<open>
  The calls of \<^verbatim>\<open>sample_cones\<close> with their arguments, and the centres of the ellipses of
  radius 3, the cone marks (a control point has radius 5).
\<close>

fun cone_calls :: "effect list \<Rightarrow> (point list \<times> pyfloat \<times> pyfloat) list" where
  "cone_calls [] = []"
| "cone_calls (Call_sample_cones pts spacing m # es) = (pts, spacing, m) # cone_calls es"
| "cone_calls (e # es) = cone_calls es"

fun cone_ellipses :: "effect list \<Rightarrow> qpointf list" where
  "cone_ellipses [] = []"
| "cone_ellipses (DrawEllipse pt rx ry # es) =
     (if rx = 3 \<and> ry = 3 then pt # cone_ellipses es else cone_ellipses es)"
| "cone_ellipses (e # es) = cone_ellipses es"

text \<open>The call of \<^verbatim>\<open>sample_cones\<close> that a boundary is due: none unless it has two points.\<close>

definition boundary_cone_call ::
  "parent \<Rightarrow> pyfloat \<Rightarrow> path_point list option \<Rightarrow> (point list \<times> pyfloat \<times> pyfloat) list" where
  "boundary_cone_call par spacing boundary =
     (case boundary of
        None \<Rightarrow> []
      | Some pts \<Rightarrow>
          if pts \<noteq> [] \<and> 1 < length pts then [(map path_xy pts, spacing, px_per_m par)] else [])"

text \<open>The cones that the calls of \<^verbatim>\<open>sample_cones\<close> returned, in display coordinates.\<close>

definition cones_displayed ::
  "'g extern \<Rightarrow> 'g canvas \<Rightarrow> (point list \<times> pyfloat \<times> pyfloat) list \<Rightarrow> qpointf list" where
  "cones_displayed env c calls =
     concat (map (\<lambda>call. map (\<lambda>pt. to_qpointf (transform_point c (fst pt) (snd pt)))
                          (sample_cones env (fst call) (fst (snd call)) (snd (snd call))))
                 calls)"

text \<open>Effects that draw no polygon.\<close>

fun no_polygon :: "effect \<Rightarrow> bool" where
  "no_polygon (DrawPolygon polygon) = False"
| "no_polygon e = True"

text \<open>Effects that neither sample nor mark a cone.\<close>

fun no_cone :: "effect \<Rightarrow> bool" where
  "no_cone (Call_sample_cones pts spacing m) = False"
| "no_cone (DrawEllipse pt rx ry) = (\<not> (rx = 3 \<and> ry = 3))"
| "no_cone e = True"

text \<open>
  The block of the safe backoff region raises nothing: the backoff entry is a float or raises
  \<^verbatim>\<open>ValueError\<close>, and if there is a free region its buffer is returned and, when the
  buffer is true and not empty, so is its exterior.
\<close>

definition safe_region_block_returns :: "'g extern \<Rightarrow> 'g canvas \<Rightarrow> parent \<Rightarrow> bool" where
  "safe_region_block_returns env c par \<longleftrightarrow>
     (\<exists>backoff_val.
        (float_of_text env (backoff_entry_text par) = Inr backoff_val
         \<or> float_of_text env (backoff_entry_text par) = Inl ValueError
             \<and> backoff_val = min_boundary_backoff par)
        \<and> (free_region c = None
           \<or> (\<exists>region safe.
                 free_region c = Some region
                 \<and> buffer env region (- (backoff_val * px_per_m par)) = Inr safe
                 \<and> (geom_bool env safe \<and> \<not> geom_is_empty env safe
                      \<longrightarrow> (\<exists>exterior. geom_exterior env safe = Inr exterior)))))"

section \<open>Example states\<close>

text \<open>
  Concrete states and stand-ins for the libraries, for evaluating the model: a canvas with
  nothing loaded on a 100 by 100 occupancy map, a parent, and libraries that read a 300 by
  200 satellite image from \<^verbatim>\<open>sat.png\<close> (a null image from any other path), find two
  contours, take the number of points of a contour for its area, shift a geometry to buffer
  it and put one cone on each boundary point.
\<close>

definition blank_canvas :: "point list canvas" where
  "blank_canvas =
     \<lparr> scale_x = Fin 1, scale_y = Fin 1, offset_x = Fin 0, offset_y = Fin 0,
       sat_image = \<lparr> width = 0, height = 0, pixel_data = [] \<rparr>,
       sat_pixmap = \<lparr> width = 0, height = 0, pixel_data = [] \<rparr>,
       binary_map = \<lparr> shape = (100, 100), array_data = [] \<rparr>,
       obstacle_polygons = [], free_region = None,
       original_obstacle_polygons = [], original_free_region = None,
       control_points = [], centerline = None, left_boundary = None,
       right_boundary = None, boundaries_swapped = False \<rparr>"

definition example_parent :: parent where
  "example_parent =
     \<lparr> fpath_location_sat_img = ''sat.png'', fpath_location_occup_img = ''occ.png'',
       backoff_entry_text = ''2.0'', min_boundary_backoff = Fin 1, px_per_m = Fin 10,
       cone_spacing_entry_text = ''five'', default_cone_distance = Fin 3, dragging = True \<rparr>"

definition example_extern :: "point list extern" where
  "example_extern =
     \<lparr> QImage_load = (\<lambda>path. if path = ''sat.png''
                              then \<lparr> width = 300, height = 200, pixel_data = [] \<rparr>
                              else \<lparr> width = 0, height = 0, pixel_data = [] \<rparr>),
       QPixmap_fromImage = (\<lambda>image. image),
       QPixmap_scaled = (\<lambda>p w h.
          if width p = 0 \<or> height p = 0 then p
          else if h * width p div height p \<le> w
               then p\<lparr>width := h * width p div height p, height := h\<rparr>
               else p\<lparr>width := w, height := w * height p div width p\<rparr>),
       cv2_imread = (\<lambda>path. if path = ''occ.png''
                             then Some \<lparr> shape = (100, 100), array_data = [] \<rparr> else None),
       cv2_threshold = (\<lambda>image. image),
       cv2_findContours = (\<lambda>bm. [[(5, 5)], [(0, 0), (0, 99), (99, 99), (99, 0)]]),
       cv2_contourArea = (\<lambda>cnt. float_of_int (int (length cnt))),
       Polygon = (\<lambda>pts. if length pts < 4 then Inl ValueError else Inr pts),
       geom_is_valid = (\<lambda>g. True),
       geom_is_empty = (\<lambda>g. g = []),
       geom_bool = (\<lambda>g. g \<noteq> []),
       geom_buffer = (\<lambda>g d. Inr (map (\<lambda>p. (fst p + d, snd p + d)) g)),
       geom_exterior = (\<lambda>g. Inr (Some g)),
       sample_cones = (\<lambda>pts spacing m. pts),
       float_of_text = (\<lambda>text. if text = ''2.0'' then Inr (Fin 2)
                                else if text = ''nan'' then Inr NaN
                                else Inl ValueError) \<rparr>"

text \<open>The canvas that \<open>init\<close> constructs from these libraries and this parent.\<close>

definition constructed_canvas :: "point list canvas" where
  "constructed_canvas =
     \<lparr> scale_x = Fin 3, scale_y = Fin 2, offset_x = Fin 0, offset_y = Fin 0,
       sat_image = \<lparr> width = 300, height = 200, pixel_data = [] \<rparr>,
       sat_pixmap = \<lparr> width = 300, height = 200, pixel_data = [] \<rparr>,
       binary_map = \<lparr> shape = (100, 100), array_data = [] \<rparr>,
       obstacle_polygons = [[(Fin 0, Fin 0), (Fin 0, Fin 99), (Fin 99, Fin 99), (Fin 99, Fin 0)]],
       free_region =
         Some [(Fin 0, Fin 0), (Fin 0, Fin 99), (Fin 99, Fin 99), (Fin 99, Fin 0), (Fin 0, Fin 0)],
       original_obstacle_polygons =
         [[(Fin 0, Fin 0), (Fin 0, Fin 99), (Fin 99, Fin 99), (Fin 99, Fin 0)]],
       original_free_region =
         Some [(Fin 0, Fin 0), (Fin 0, Fin 99), (Fin 99, Fin 99), (Fin 99, Fin 0), (Fin 0, Fin 0)],
       control_points = [], centerline = None, left_boundary = None,
       right_boundary = None, boundaries_swapped = False \<rparr>"

text \<open>The canvas that \<open>init\<close> constructs when the satellite image cannot be read.\<close>

definition canvas_without_image :: "point list canvas" where
  "canvas_without_image =
     constructed_canvas
       \<lparr> scale_x := Fin 0, scale_y := Fin 0,
         sat_image := \<lparr> width = 0, height = 0, pixel_data = [] \<rparr>,
         sat_pixmap := \<lparr> width = 0, height = 0, pixel_data = [] \<rparr> \<rparr>"

section \<open>Properties\<close>

subsection \<open>Rounding\<close>

text \<open>
  The rounding function does what its description says: \<open>ilog2\<close> is the binary exponent,
  the rounded integer is within one half of the exact quotient, a result below \<open>2 ^ 1023\<close>
  in magnitude stays finite, and rounding is symmetric under negation.
\<close>

lemma pow2_power_int: "pow2 e = power_int 2 e"
  by (simp add: pow2_def power_int_def power_inverse field_simps)

lemma pow2_pos: "0 < pow2 e"
  by (simp add: pow2_power_int)

lemma pow2_add: "pow2 (a + b) = pow2 a * pow2 b"
  by (simp add: pow2_power_int power_int_add)

lemma pow2_mono: "a \<le> b \<Longrightarrow> pow2 a \<le> pow2 b"
  by (simp add: pow2_power_int power_int_increasing)

lemma pow2_strict_mono: "a < b \<Longrightarrow> pow2 a < pow2 b"
  by (simp add: pow2_power_int power_int_strict_increasing)

lemma pow2_less_cancel: "pow2 a < pow2 b \<Longrightarrow> a < b"
  using pow2_mono [of b a] by (cases "a < b") auto

lemma pow2_nat: "0 \<le> e \<Longrightarrow> pow2 e = 2 ^ nat e"
  by (simp add: pow2_def)

lemma bit_length_nonneg: "0 \<le> bit_length n"
proof (induction n rule: bit_length.induct)
  case (1 n)
  then show ?case
    by (subst bit_length.simps) simp
qed

lemma bit_length_pos: "0 < n \<Longrightarrow> 0 < bit_length n"
  using bit_length_nonneg [of "n div 2"] by (subst bit_length.simps) simp

lemma bit_length_bounds:
  "0 < n \<Longrightarrow> 2 ^ nat (bit_length n - 1) \<le> n \<and> n < 2 ^ nat (bit_length n)"
proof (induction n rule: bit_length.induct)
  case (1 n)
  show ?case
  proof (cases "n = 1")
    case True
    have "bit_length 1 = 1"
      by (subst bit_length.simps, subst bit_length.simps) simp
    with True show ?thesis
      by simp
  next
    case False
    with "1.prems" have half: "0 < n div 2"
      by simp
    from "1.IH" "1.prems" half
    have ih: "2 ^ nat (bit_length (n div 2) - 1) \<le> n div 2" "n div 2 < 2 ^ nat (bit_length (n div 2))"
      by simp_all
    have len: "bit_length n = 1 + bit_length (n div 2)"
      using "1.prems" by (subst bit_length.simps) simp
    have pos: "0 < bit_length (n div 2)"
      using half by (rule bit_length_pos)
    have exp: "nat (bit_length n - 1) = Suc (nat (bit_length (n div 2) - 1))"
      "nat (bit_length n) = Suc (nat (bit_length (n div 2)))"
      using pos len by simp_all
    have "2 * 2 ^ nat (bit_length (n div 2) - 1) \<le> 2 * (n div 2)"
      using ih(1) by simp
    also have "\<dots> \<le> n"
      by simp
    finally have lower: "2 ^ nat (bit_length n - 1) \<le> n"
      by (simp add: exp)
    have "n div 2 + 1 \<le> 2 ^ nat (bit_length (n div 2))"
      using ih(2) by simp
    then have "2 * (n div 2) + 2 \<le> 2 * 2 ^ nat (bit_length (n div 2))"
      by simp
    moreover have "n < 2 * (n div 2) + 2"
      by presburger
    ultimately have upper: "n < 2 ^ nat (bit_length n)"
      by (simp add: exp)
    from lower upper show ?thesis ..
  qed
qed

lemma ilog2_bounds:
  assumes "0 < q"
  shows "pow2 (ilog2 q) \<le> q \<and> q < pow2 (ilog2 q + 1)"
proof -
  obtain a b where ab: "quotient_of q = (a, b)"
    by (cases "quotient_of q") auto
  have b: "0 < b"
    using ab quotient_of_denom_pos by blast
  have q: "q = of_int a / of_int b"
    using ab by (rule quotient_of_div)
  have a: "0 < a"
    using assms b unfolding q by (simp add: zero_less_divide_iff)
  let ?k = "bit_length a - bit_length b"
  note ba = bit_length_bounds [OF a]
  note bb = bit_length_bounds [OF b]
  have la: "0 < bit_length a" and lb: "0 < bit_length b"
    using a b by (simp_all add: bit_length_pos)
  have a_lo: "pow2 (bit_length a - 1) \<le> of_int a"
  proof -
    have "(of_int (2 ^ nat (bit_length a - 1)) :: rat) \<le> of_int a"
      using ba by (simp only: of_int_le_iff)
    then show ?thesis
      using la by (simp add: pow2_nat)
  qed
  have a_hi: "of_int a < pow2 (bit_length a)"
  proof -
    have "(of_int a :: rat) < of_int (2 ^ nat (bit_length a))"
      using ba by (simp only: of_int_less_iff)
    then show ?thesis
      using la by (simp add: pow2_nat)
  qed
  have b_lo: "pow2 (bit_length b - 1) \<le> of_int b"
  proof -
    have "(of_int (2 ^ nat (bit_length b - 1)) :: rat) \<le> of_int b"
      using bb by (simp only: of_int_le_iff)
    then show ?thesis
      using lb by (simp add: pow2_nat)
  qed
  have b_hi: "of_int b < pow2 (bit_length b)"
  proof -
    have "(of_int b :: rat) < of_int (2 ^ nat (bit_length b))"
      using bb by (simp only: of_int_less_iff)
    then show ?thesis
      using lb by (simp add: pow2_nat)
  qed
  have bpos: "(0::rat) < of_int b"
    using b by simp
  have lower: "pow2 (?k - 1) \<le> q"
  proof -
    have "pow2 (?k - 1) * of_int b \<le> pow2 (?k - 1) * pow2 (bit_length b)"
      using b_hi pow2_pos [of "?k - 1"] by (simp add: less_imp_le)
    also have "\<dots> = pow2 (bit_length a - 1)"
      by (simp add: pow2_add [symmetric])
    also have "\<dots> \<le> of_int a"
      by (rule a_lo)
    finally show ?thesis
      unfolding q using bpos by (simp add: pos_le_divide_eq)
  qed
  have upper: "q < pow2 (?k + 1)"
  proof -
    have "of_int a < pow2 (bit_length a)"
      by (rule a_hi)
    also have "\<dots> = pow2 (?k + 1) * pow2 (bit_length b - 1)"
      by (simp add: pow2_add [symmetric])
    also have "\<dots> \<le> pow2 (?k + 1) * of_int b"
      using b_lo pow2_pos [of "?k + 1"] by simp
    finally show ?thesis
      unfolding q using bpos by (simp add: pos_divide_less_eq)
  qed
  show ?thesis
  proof (cases "pow2 ?k \<le> q")
    case True
    then have "ilog2 q = ?k"
      by (simp add: ilog2_def ab)
    with True upper show ?thesis
      by simp
  next
    case False
    then have "ilog2 q = ?k - 1"
      by (simp add: ilog2_def ab)
    with False lower show ?thesis
      by simp
  qed
qed

lemma ilog2_less: "0 < q \<Longrightarrow> q < pow2 k \<Longrightarrow> ilog2 q < k"
  using ilog2_bounds [of q] pow2_less_cancel [of "ilog2 q" k] by simp

lemma ilog2_zero: "ilog2 0 = - 2"
proof -
  have "bit_length 0 = 0" "bit_length 1 = 1"
    by (subst bit_length.simps, simp, subst bit_length.simps, subst bit_length.simps, simp)
  then show ?thesis
    by (simp add: ilog2_def pow2_def)
qed

lemma round_half_even_error: "\<bar>of_int (round_half_even m) - m\<bar> \<le> 1 / 2"
proof -
  have "of_int \<lfloor>m\<rfloor> \<le> m" "m < of_int \<lfloor>m\<rfloor> + 1"
    by linarith+
  then show ?thesis
    by (auto simp add: round_half_even_def Let_def)
qed

lemma round_half_even_uminus: "round_half_even (- m) = - round_half_even m"
proof (cases "m = of_int \<lfloor>m\<rfloor>")
  case True
  then obtain n where m: "m = of_int n"
    by blast
  show ?thesis
    unfolding m by (simp add: round_half_even_def flip: of_int_minus)
next
  case False
  have lo: "of_int \<lfloor>m\<rfloor> < m" and hi: "m < of_int \<lfloor>m\<rfloor> + 1"
    using False by linarith+
  have fl: "\<lfloor>- m\<rfloor> = - \<lfloor>m\<rfloor> - 1"
    using lo hi by (intro floor_unique) simp_all
  show ?thesis
    using lo hi by (auto simp add: round_half_even_def Let_def fl)
qed

lemma round_double_finite:
  assumes "\<bar>q\<bar> < pow2 1023"
  shows "\<exists>r. round_double q = Fin r"
proof (cases "q = 0")
  case True
  then show ?thesis
    by (simp add: round_double_def)
next
  case False
  then have pos: "0 < \<bar>q\<bar>"
    by simp
  define e where "e = max (ilog2 \<bar>q\<bar>) (- 1022)"
  define ulp where "ulp = pow2 (e - 52)"
  define n where "n = round_half_even (q / ulp)"
  define r where "r = of_int n * ulp"
  have "ilog2 \<bar>q\<bar> < 1023"
    using pos assms by (rule ilog2_less)
  then have e: "e \<le> 1022"
    by (simp add: e_def)
  have ulp_pos: "0 < ulp"
    by (simp add: ulp_def pow2_pos)
  have ulp_small: "ulp \<le> pow2 1023"
    unfolding ulp_def using e by (intro pow2_mono) simp
  have "\<bar>of_int n - q / ulp\<bar> \<le> 1 / 2"
    unfolding n_def by (rule round_half_even_error)
  then have "\<bar>of_int n - q / ulp\<bar> * ulp \<le> 1 / 2 * ulp"
    using ulp_pos by (simp add: mult_right_mono)
  moreover have "\<bar>of_int n - q / ulp\<bar> * ulp = \<bar>r - q\<bar>"
  proof -
    have "r - q = (of_int n - q / ulp) * ulp"
      using ulp_pos by (simp add: r_def left_diff_distrib)
    then have "\<bar>r - q\<bar> = \<bar>of_int n - q / ulp\<bar> * \<bar>ulp\<bar>"
      by (simp only: abs_mult)
    then show ?thesis
      using ulp_pos by simp
  qed
  ultimately have near: "\<bar>r - q\<bar> \<le> ulp / 2"
    by simp
  have "\<bar>r\<bar> \<le> \<bar>q\<bar> + \<bar>r - q\<bar>"
    by simp
  also have "\<dots> < pow2 1023 + pow2 1023"
    using assms near ulp_small ulp_pos by simp
  also have "\<dots> = pow2 1024"
    by (simp add: pow2_def)
  finally have bound: "\<bar>r\<bar> < pow2 1024" .
  have "ilog2 \<bar>r\<bar> < 1024"
  proof (cases "r = 0")
    case True
    then show ?thesis
      by (simp add: ilog2_zero)
  next
    case False
    then have "0 < \<bar>r\<bar>"
      by simp
    then show ?thesis
      using bound by (rule ilog2_less)
  qed
  then have "round_double q = Fin r"
    using False by (simp add: round_double_def Let_def e_def ulp_def n_def r_def)
  then show ?thesis ..
qed

lemma round_double_uminus: "round_double (- q) = - round_double q"
  by (simp add: round_double_def Let_def round_half_even_uminus)

text \<open>
  Negation commutes with multiplication, as in IEEE 754: \<^verbatim>\<open>-(a * b)\<close>, the distance that
  \<open>paintEvent\<close> buffers by, is the same float as \<^verbatim>\<open>-a * b\<close>.
\<close>

lemma times_uminus_left: "(- a) * b = - (a * (b :: pyfloat))"
  by (cases a; cases b) (auto simp add: round_double_uminus inf_signed_def)

lemma int_truediv_finite:
  assumes "b \<noteq> 0" "\<bar>a\<bar> < 2 ^ 1023"
  shows "\<exists>r. int_truediv a b = Inr (Fin r) \<and> round_double (of_int a / of_int b) = Fin r"
proof -
  have "1 \<le> \<bar>b\<bar>"
    using assms(1) by simp
  then have "(1::rat) \<le> \<bar>of_int b\<bar>"
    by (simp flip: of_int_abs)
  then have "\<bar>of_int a :: rat\<bar> * 1 \<le> \<bar>of_int a\<bar> * \<bar>of_int b\<bar>"
    by (intro mult_left_mono) simp_all
  moreover have "(0::rat) < \<bar>of_int b\<bar>"
    using assms(1) by simp
  ultimately have "\<bar>of_int a :: rat\<bar> / \<bar>of_int b\<bar> \<le> \<bar>of_int a\<bar>"
    by (simp only: pos_divide_le_eq mult_1_right)
  then have "\<bar>of_int a / of_int b :: rat\<bar> \<le> \<bar>of_int a\<bar>"
    by (simp only: abs_divide)
  also have "\<dots> < pow2 1023"
  proof -
    have "(of_int \<bar>a\<bar> :: rat) < of_int (2 ^ 1023)"
      using assms(2) by (simp only: of_int_less_iff)
    then show ?thesis
      by (simp add: pow2_def)
  qed
  finally obtain r where "round_double (of_int a / of_int b) = Fin r"
    using round_double_finite by blast
  then show ?thesis
    using assms(1) by (simp add: int_truediv_def)
qed

subsection \<open>Coordinate transforms\<close>

text \<open>
  C2. For every map point and every canvas state, \<open>transform_point\<close> returns exactly
  \<open>(map_x * scale_x + offset_x, map_y * scale_y + offset_y)\<close>, a scale and an offset and
  nothing else, and \<open>transform_polygon\<close> applies this same map to every vertex of its
  polygon, in order.
\<close>

theorem transform_point_is_scale_plus_offset:
  "transform_point c map_x map_y
     = (map_x * scale_x c + offset_x c, map_y * scale_y c + offset_y c)
   \<and> transform_polygon c polygon
     = map (\<lambda>p. (fst p * scale_x c + offset_x c, snd p * scale_y c + offset_y c)) polygon
   \<and> length (transform_polygon c polygon) = length polygon"
  by (simp add: transform_point_def transform_polygon_def)




subsection \<open>The free region\<close>

lemma float_gt_trans: "float_gt a b \<Longrightarrow> float_gt b c \<Longrightarrow> float_gt a c"
  by (cases a; cases b; cases c) auto

lemma float_gt_between:
  "b \<noteq> NaN \<Longrightarrow> \<not> float_gt a b \<Longrightarrow> \<not> float_gt b c \<Longrightarrow> \<not> float_gt a c"
  by (cases a; cases b; cases c) auto

lemma max_from_member: "max_from key best xs \<in> set (best # xs)"
  by (induction xs arbitrary: best) auto

lemma max_from_greatest:
  assumes "\<forall>x \<in> set (best # xs). key x \<noteq> NaN"
  shows "\<forall>x \<in> set (best # xs). \<not> float_gt (key x) (key (max_from key best xs))"
  using assms
proof (induction xs arbitrary: best)
  case Nil
  then show ?case by (cases "key best") auto
next
  case (Cons y ys)
  show ?case
  proof (cases "float_gt (key y) (key best)")
    case True
    have ih: "\<forall>x \<in> set (y # ys). \<not> float_gt (key x) (key (max_from key y ys))"
      using Cons.IH [of y] Cons.prems by simp
    have "\<not> float_gt (key best) (key (max_from key y ys))"
    proof
      assume "float_gt (key best) (key (max_from key y ys))"
      with True have "float_gt (key y) (key (max_from key y ys))"
        by (rule float_gt_trans)
      with ih show False by simp
    qed
    with ih True show ?thesis by simp
  next
    case False
    have ih: "\<forall>x \<in> set (best # ys). \<not> float_gt (key x) (key (max_from key best ys))"
      using Cons.IH [of best] Cons.prems by simp
    have "key best \<noteq> NaN"
      using Cons.prems by simp
    with False ih have "\<not> float_gt (key y) (key (max_from key best ys))"
      using float_gt_between [of "key best" "key y" "key (max_from key best ys)"] by simp
    with ih False show ?thesis by simp
  qed
qed

lemma squeeze_rows: "squeeze cnt = Mat rows \<Longrightarrow> rows = cnt"
  by (auto simp add: squeeze_def split: list.splits)

lemma squeeze_short:
  "(ndim (squeeze cnt) = 1 \<or> len (squeeze cnt) < 3) \<longleftrightarrow> length cnt < 3"
  by (auto simp add: squeeze_def split: list.splits)

lemma extract_free_region_largest:
  assumes "py_max (cv2_contourArea env) (cv2_findContours env bm) = Inr largest"
  shows "extract_free_region env c bm =
           (if ndim (squeeze largest) = 1 \<or> len (squeeze largest) < 3 then None
            else case Polygon env (scaled_pts c (closed_ring largest)) of
                   Inl e \<Rightarrow> None
                 | Inr poly \<Rightarrow>
                     if \<not> geom_is_valid env poly \<or> geom_is_empty env poly then None
                     else Some poly)"
proof -
  from assms have nonempty: "cv2_findContours env bm \<noteq> []"
    by (auto simp add: py_max_def)
  show ?thesis
  proof (cases "squeeze largest")
    case (Vec v)
    then show ?thesis
      by (simp add: extract_free_region_def Let_def assms nonempty)
  next
    case (Mat rows)
    then have "rows = largest"
      by (rule squeeze_rows)
    with Mat show ?thesis
      by (simp add: extract_free_region_def Let_def assms nonempty)
  qed
qed

lemma py_max_nonempty: "xs \<noteq> [] \<Longrightarrow> \<exists>largest. py_max key xs = Inr largest"
  by (cases xs) (simp_all add: py_max_def)

text \<open>
  C3. \<open>extract_free_region\<close> returns \<open>None\<close> exactly when the occupancy map has no
  contours, or the contour picked by \<^verbatim>\<open>max\<close> squeezes to a 1-D array or has fewer than 3
  points, or constructing the polygon raises, or the polygon is invalid or empty. Otherwise
  it returns the polygon built from the transformed points of that contour, with the first
  point appended when the last one differs from it. The contour picked is one of the
  contours and none has a larger area (areas are never NaN).
\<close>

theorem extract_free_region_result:
  "(extract_free_region env c bm = None \<longleftrightarrow>
      cv2_findContours env bm = []
      \<or> (\<exists>largest.
            py_max (cv2_contourArea env) (cv2_findContours env bm) = Inr largest
            \<and> (ndim (squeeze largest) = 1
               \<or> len (squeeze largest) < 3
               \<or> (\<exists>e. Polygon env (scaled_pts c (closed_ring largest)) = Inl e)
               \<or> (\<exists>poly. Polygon env (scaled_pts c (closed_ring largest)) = Inr poly
                     \<and> (\<not> geom_is_valid env poly \<or> geom_is_empty env poly)))))
   \<and> (\<forall>poly. extract_free_region env c bm = Some poly \<longrightarrow>
         (\<exists>largest.
            py_max (cv2_contourArea env) (cv2_findContours env bm) = Inr largest
            \<and> Polygon env
                 (map (\<lambda>p. transform_point c (float_of_int (fst p)) (float_of_int (snd p)))
                    (if hd largest \<noteq> last largest then largest @ [hd largest] else largest))
               = Inr poly))
   \<and> (\<forall>largest.
         py_max (cv2_contourArea env) (cv2_findContours env bm) = Inr largest
         \<and> (\<forall>cnt \<in> set (cv2_findContours env bm). cv2_contourArea env cnt \<noteq> NaN)
         \<longrightarrow> largest \<in> set (cv2_findContours env bm)
             \<and> (\<forall>cnt \<in> set (cv2_findContours env bm).
                   \<not> float_gt (cv2_contourArea env cnt) (cv2_contourArea env largest)))"
proof (intro conjI allI impI)
  show "extract_free_region env c bm = None \<longleftrightarrow>
      cv2_findContours env bm = []
      \<or> (\<exists>largest.
            py_max (cv2_contourArea env) (cv2_findContours env bm) = Inr largest
            \<and> (ndim (squeeze largest) = 1
               \<or> len (squeeze largest) < 3
               \<or> (\<exists>e. Polygon env (scaled_pts c (closed_ring largest)) = Inl e)
               \<or> (\<exists>poly. Polygon env (scaled_pts c (closed_ring largest)) = Inr poly
                     \<and> (\<not> geom_is_valid env poly \<or> geom_is_empty env poly))))"
  proof (cases "cv2_findContours env bm = []")
    case True
    then show ?thesis
      by (simp add: extract_free_region_def)
  next
    case False
    then obtain largest where
      largest: "py_max (cv2_contourArea env) (cv2_findContours env bm) = Inr largest"
      using py_max_nonempty by blast
    show ?thesis
      unfolding extract_free_region_largest [OF largest]
      using False largest
      by (cases "Polygon env (scaled_pts c (closed_ring largest))") auto
  qed
next
  fix poly
  assume some: "extract_free_region env c bm = Some poly"
  then have "cv2_findContours env bm \<noteq> []"
    by (auto simp add: extract_free_region_def)
  then obtain largest where
    largest: "py_max (cv2_contourArea env) (cv2_findContours env bm) = Inr largest"
    using py_max_nonempty by blast
  from some have "Polygon env (scaled_pts c (closed_ring largest)) = Inr poly"
    unfolding extract_free_region_largest [OF largest]
    by (cases "Polygon env (scaled_pts c (closed_ring largest))") (auto split: if_splits)
  then have "Polygon env
      (map (\<lambda>p. transform_point c (float_of_int (fst p)) (float_of_int (snd p)))
         (if hd largest \<noteq> last largest then largest @ [hd largest] else largest)) = Inr poly"
    by (simp add: scaled_pts_def closed_ring_def)
  with largest show "\<exists>largest.
      py_max (cv2_contourArea env) (cv2_findContours env bm) = Inr largest
      \<and> Polygon env
           (map (\<lambda>p. transform_point c (float_of_int (fst p)) (float_of_int (snd p)))
              (if hd largest \<noteq> last largest then largest @ [hd largest] else largest))
         = Inr poly"
    by blast
next
  fix largest
  assume a: "py_max (cv2_contourArea env) (cv2_findContours env bm) = Inr largest
    \<and> (\<forall>cnt \<in> set (cv2_findContours env bm). cv2_contourArea env cnt \<noteq> NaN)"
  then obtain first rest where
    contours: "cv2_findContours env bm = first # rest"
    and largest: "largest = max_from (cv2_contourArea env) first rest"
    by (cases "cv2_findContours env bm") (auto simp add: py_max_def)
  show "largest \<in> set (cv2_findContours env bm)"
    unfolding contours largest by (rule max_from_member)
  show "\<forall>cnt \<in> set (cv2_findContours env bm).
      \<not> float_gt (cv2_contourArea env cnt) (cv2_contourArea env largest)"
    unfolding contours largest
    using a by (intro max_from_greatest) (simp add: contours)
qed

theorem extract_free_region_result_witness:
  "extract_free_region example_extern blank_canvas \<lparr> shape = (100, 100), array_data = [] \<rparr>
     = Some [(Fin 0, Fin 0), (Fin 0, Fin 99), (Fin 99, Fin 99), (Fin 99, Fin 0), (Fin 0, Fin 0)]
   \<and> (\<exists>largest.
         py_max (cv2_contourArea example_extern)
           (cv2_findContours example_extern \<lparr> shape = (100, 100), array_data = [] \<rparr>) = Inr largest
         \<and> Polygon example_extern
              (map (\<lambda>p. transform_point blank_canvas (float_of_int (fst p)) (float_of_int (snd p)))
                 (if hd largest \<noteq> last largest then largest @ [hd largest] else largest))
            = Inr [(Fin 0, Fin 0), (Fin 0, Fin 99), (Fin 99, Fin 99), (Fin 99, Fin 0), (Fin 0, Fin 0)])
   \<and> extract_free_region (example_extern\<lparr>cv2_findContours := (\<lambda>bm. [[(5, 5)]])\<rparr>) blank_canvas
       \<lparr> shape = (100, 100), array_data = [] \<rparr> = None"
proof -
  let ?bm = "\<lparr> shape = (100, 100), array_data = [] \<rparr>"
  let ?ring = "[(Fin 0, Fin 0), (Fin 0, Fin 99), (Fin 99, Fin 99), (Fin 99, Fin 0), (Fin 0, Fin 0)]"
  let ?point = "example_extern\<lparr>cv2_findContours := (\<lambda>bm. [[(5, 5)]])\<rparr>"
  have found: "extract_free_region example_extern blank_canvas ?bm = Some ?ring"
    by code_simp
  have single: "py_max (cv2_contourArea ?point) (cv2_findContours ?point ?bm) = Inr [(5, 5)]"
    by code_simp
  have one_dim: "ndim (squeeze [(5, 5)]) = 1"
    by code_simp
  from extract_free_region_result [of example_extern blank_canvas ?bm] found
  have "\<exists>largest.
         py_max (cv2_contourArea example_extern) (cv2_findContours example_extern ?bm) = Inr largest
         \<and> Polygon example_extern
              (map (\<lambda>p. transform_point blank_canvas (float_of_int (fst p)) (float_of_int (snd p)))
                 (if hd largest \<noteq> last largest then largest @ [hd largest] else largest))
            = Inr ?ring"
    by blast
  moreover from extract_free_region_result [of ?point blank_canvas ?bm] single one_dim
  have "extract_free_region ?point blank_canvas ?bm = None"
    by blast
  ultimately show ?thesis
    using found by blast
qed

subsection \<open>What paintEvent draws\<close>

lemma pen_after_append: "pen_after p (xs @ ys) = pen_after (pen_after p xs) ys"
  by (induction p xs rule: pen_after.induct) simp_all

lemma polygons_drawn_append:
  "polygons_drawn p (xs @ ys) = polygons_drawn p xs @ polygons_drawn (pen_after p xs) ys"
  by (induction p xs rule: polygons_drawn.induct) simp_all

lemma cone_calls_append: "cone_calls (xs @ ys) = cone_calls xs @ cone_calls ys"
  by (induction xs rule: cone_calls.induct) simp_all

lemma cone_ellipses_append: "cone_ellipses (xs @ ys) = cone_ellipses xs @ cone_ellipses ys"
  by (induction xs rule: cone_ellipses.induct) simp_all

lemma polygons_drawn_none: "list_all no_polygon es \<Longrightarrow> polygons_drawn p es = []"
  by (induction p es rule: polygons_drawn.induct) simp_all

lemma cone_calls_none: "list_all no_cone es \<Longrightarrow> cone_calls es = []"
  by (induction es rule: cone_calls.induct) simp_all

lemma cone_ellipses_none: "list_all no_cone es \<Longrightarrow> cone_ellipses es = []"
  by (induction es rule: cone_ellipses.induct) simp_all

lemma draw_obstacles_polygons:
  "filter (\<lambda>d. fst d = QPen (QColor 255 0 255) 2 DashLine) (polygons_drawn p (draw_obstacles c)) = []"
proof -
  have "\<And>q. q \<noteq> QPen (QColor 255 0 255) 2 DashLine \<Longrightarrow>
    filter (\<lambda>d. fst d = QPen (QColor 255 0 255) 2 DashLine)
      (polygons_drawn q (map (\<lambda>poly. DrawPolygon (f poly)) polys)) = []" for f :: "point list \<Rightarrow> qpointf list" and polys
    by (induction polys) simp_all
  then show ?thesis
    by (simp add: draw_obstacles_def)
qed

lemma draw_obstacles_no_cone: "list_all no_cone (draw_obstacles c)"
  by (simp add: draw_obstacles_def list_all_iff)

lemma draw_control_points_no_polygon: "list_all no_polygon (draw_control_points c)"
  by (auto simp add: draw_control_points_def list_all_iff)

lemma draw_control_points_no_cone: "list_all no_cone (draw_control_points c)"
  by (auto simp add: draw_control_points_def list_all_iff)

lemma draw_centerline_no_polygon: "list_all no_polygon (draw_centerline c)"
  by (auto simp add: draw_centerline_def list_all_iff Let_def split: option.splits)

lemma draw_centerline_no_cone: "list_all no_cone (draw_centerline c)"
  by (auto simp add: draw_centerline_def list_all_iff Let_def split: option.splits)

lemma draw_boundary_no_polygon: "list_all no_polygon (draw_boundary c b col)"
  by (auto simp add: draw_boundary_def list_all_iff split: option.splits)

lemma draw_boundary_no_cone: "list_all no_cone (draw_boundary c b col)"
  by (auto simp add: draw_boundary_def list_all_iff split: option.splits)

lemma draw_cones_no_polygon: "list_all no_polygon (draw_cones env c par b s col)"
  by (auto simp add: draw_cones_def list_all_iff Let_def split: option.splits)

lemma draw_all_cones_no_polygon: "list_all no_polygon (fst (draw_all_cones env c par))"
  by (auto simp add: draw_all_cones_def draw_cones_no_polygon split: sum.splits)

lemma draw_safe_region_no_cone: "list_all no_cone (fst (draw_safe_region env c par))"
  by (auto simp add: draw_safe_region_def Let_def split: sum.splits option.splits)

lemma paint_overlays_blocks:
  "paint_overlays env c par =
     (case draw_safe_region env c par of
        (s, Some e) \<Rightarrow> (draw_obstacles c @ s, Some e)
      | (s, None) \<Rightarrow>
          (draw_obstacles c @ s @ draw_control_points c @ draw_centerline c
             @ draw_boundary c (left_boundary c)
                 (if \<not> boundaries_swapped c then QColor 0 0 255 else QColor 255 255 0)
             @ draw_boundary c (right_boundary c)
                 (if \<not> boundaries_swapped c then QColor 255 255 0 else QColor 0 0 255)
             @ fst (draw_all_cones env c par),
           snd (draw_all_cones env c par)))"
proof (cases "draw_safe_region env c par")
  case (Pair s r)
  obtain cs cr where cones: "draw_all_cones env c par = (cs, cr)"
    by (cases "draw_all_cones env c par") auto
  show ?thesis
    by (cases r; cases cr) (simp_all add: paint_overlays_def Pair cones)
qed

lemma safe_region_polygons_append:
  "safe_region_polygons p (xs @ ys)
     = safe_region_polygons p xs @ safe_region_polygons (pen_after p xs) ys"
  by (simp add: safe_region_polygons_def polygons_drawn_append)

lemma safe_region_polygons_none:
  "list_all no_polygon es \<Longrightarrow> safe_region_polygons p es = []"
  by (simp add: safe_region_polygons_def polygons_drawn_none)

lemma safe_region_polygons_obstacles: "safe_region_polygons p (draw_obstacles c) = []"
  by (simp add: safe_region_polygons_def draw_obstacles_polygons)

lemma entry_value_reads:
  "entry_value env text fallback = Inr v
     \<longleftrightarrow> float_of_text env text = Inr v
         \<or> float_of_text env text = Inl ValueError \<and> v = fallback"
  by (cases "float_of_text env text") (auto simp add: entry_value_def)

lemma entry_value_raises:
  "entry_value env text fallback = Inl e
     \<longleftrightarrow> float_of_text env text = Inl e \<and> e \<noteq> ValueError"
  by (cases "float_of_text env text") (auto simp add: entry_value_def)

text \<open>What the block of the safe region does, case by case, once the entry is read.\<close>

lemma draw_safe_region_read:
  assumes "entry_value env (backoff_entry_text par) (min_boundary_backoff par) = Inr b"
  shows "(free_region c = None \<and> draw_safe_region env c par = ([], None))
     \<or> (\<exists>region e. free_region c = Some region
           \<and> buffer env region (- (b * px_per_m par)) = Inl e
           \<and> draw_safe_region env c par = ([], Some e))
     \<or> (\<exists>region safe. free_region c = Some region
           \<and> buffer env region (- (b * px_per_m par)) = Inr safe
           \<and> (geom_bool env safe \<longrightarrow> geom_is_empty env safe)
           \<and> draw_safe_region env c par = ([], None))
     \<or> (\<exists>region safe e. free_region c = Some region
           \<and> buffer env region (- (b * px_per_m par)) = Inr safe
           \<and> geom_bool env safe \<and> \<not> geom_is_empty env safe
           \<and> geom_exterior env safe = Inl e
           \<and> draw_safe_region env c par = ([], Some e))
     \<or> (\<exists>region safe. free_region c = Some region
           \<and> buffer env region (- (b * px_per_m par)) = Inr safe
           \<and> geom_bool env safe \<and> \<not> geom_is_empty env safe
           \<and> geom_exterior env safe = Inr None
           \<and> draw_safe_region env c par = ([], None))
     \<or> (\<exists>region safe coords. free_region c = Some region
           \<and> buffer env region (- (b * px_per_m par)) = Inr safe
           \<and> geom_bool env safe \<and> \<not> geom_is_empty env safe
           \<and> geom_exterior env safe = Inr (Some coords)
           \<and> \<not> 4 \<le> length coords
           \<and> draw_safe_region env c par = ([], None))
     \<or> (\<exists>region safe coords. free_region c = Some region
           \<and> buffer env region (- (b * px_per_m par)) = Inr safe
           \<and> geom_bool env safe \<and> \<not> geom_is_empty env safe
           \<and> geom_exterior env safe = Inr (Some coords)
           \<and> 4 \<le> length coords
           \<and> draw_safe_region env c par
               = ([SetPen (QPen (QColor 255 0 255) 2 DashLine),
                   DrawPolygon (map (\<lambda>p. to_qpointf (transform_point c (fst p) (snd p))) coords)],
                  None))"
proof (cases "free_region c")
  case None
  then show ?thesis
    by (simp add: draw_safe_region_def assms)
next
  case (Some region)
  note fr = this
  show ?thesis
  proof (cases "buffer env region (- (b * px_per_m par))")
    case (Inl e)
    then have "draw_safe_region env c par = ([], Some e)"
      by (simp add: draw_safe_region_def assms fr)
    with fr Inl show ?thesis by blast
  next
    case (Inr safe)
    note buf = this
    show ?thesis
    proof (cases "geom_bool env safe \<and> \<not> geom_is_empty env safe")
      case False
      then have "draw_safe_region env c par = ([], None)"
        by (auto simp add: draw_safe_region_def assms fr buf)
      with fr buf False show ?thesis by blast
    next
      case True
      note live = this
      show ?thesis
      proof (cases "geom_exterior env safe")
        case (Inl e)
        then have "draw_safe_region env c par = ([], Some e)"
          using live by (simp add: draw_safe_region_def assms fr buf)
        with fr buf live Inl show ?thesis by blast
      next
        case (Inr exterior)
        note ext = this
        show ?thesis
        proof (cases exterior)
          case None
          then have "draw_safe_region env c par = ([], None)"
            using live by (simp add: draw_safe_region_def assms fr buf ext)
          with fr buf live ext None show ?thesis by blast
        next
          case (Some coords)
          note co = this
          show ?thesis
          proof (cases "4 \<le> length coords")
            case False
            then have "draw_safe_region env c par = ([], None)"
              using live by (simp add: draw_safe_region_def assms fr buf ext co)
            with fr buf live ext co False show ?thesis by blast
          next
            case True
            then have "draw_safe_region env c par
               = ([SetPen (QPen (QColor 255 0 255) 2 DashLine),
                   DrawPolygon (map (\<lambda>p. to_qpointf (transform_point c (fst p) (snd p))) coords)],
                  None)"
              using live by (simp add: draw_safe_region_def assms fr buf ext co)
            with fr buf live ext co True show ?thesis by blast
          qed
        qed
      qed
    qed
  qed
qed

lemma draw_safe_region_parse_raises:
  assumes "entry_value env (backoff_entry_text par) (min_boundary_backoff par) = Inl e"
  shows "draw_safe_region env c par = ([], Some e)"
  by (simp add: draw_safe_region_def assms)

lemma draw_safe_region_shape:
  "(\<exists>r. draw_safe_region env c par = ([], r))
   \<or> (\<exists>b region safe coords.
         entry_value env (backoff_entry_text par) (min_boundary_backoff par) = Inr b
         \<and> free_region c = Some region
         \<and> buffer env region (- (b * px_per_m par)) = Inr safe
         \<and> geom_bool env safe \<and> \<not> geom_is_empty env safe
         \<and> geom_exterior env safe = Inr (Some coords)
         \<and> 4 \<le> length coords
         \<and> draw_safe_region env c par
             = ([SetPen (QPen (QColor 255 0 255) 2 DashLine),
                 DrawPolygon (map (\<lambda>p. to_qpointf (transform_point c (fst p) (snd p))) coords)],
                None))"
proof (cases "entry_value env (backoff_entry_text par) (min_boundary_backoff par)")
  case (Inl e)
  then show ?thesis
    using draw_safe_region_parse_raises by blast
next
  case (Inr b)
  from draw_safe_region_read [OF Inr, of c] Inr show ?thesis
    by blast
qed

lemma safe_region_polygons_block:
  "safe_region_polygons p
     [SetPen (QPen (QColor 255 0 255) 2 DashLine), DrawPolygon polygon] = [polygon]"
  "safe_region_polygons p [] = []"
  by (simp_all add: safe_region_polygons_def)

lemma safe_block_pen:
  "safe_region_polygons p (fst (draw_safe_region env c par))
     = safe_region_polygons q (fst (draw_safe_region env c par))"
  using draw_safe_region_shape [of env c par]
  by (auto simp add: safe_region_polygons_block)

lemma overlays_safe_region_polygons:
  assumes "list_all no_polygon pre"
  shows "safe_region_polygons p (pre @ fst (paint_overlays env c par))
           = safe_region_polygons q (fst (draw_safe_region env c par))"
proof -
  have rest: "list_all no_polygon
      (draw_control_points c @ draw_centerline c
         @ draw_boundary c (left_boundary c) col1 @ draw_boundary c (right_boundary c) col2
         @ fst (draw_all_cones env c par))" for col1 col2
    by (simp add: draw_control_points_no_polygon draw_centerline_no_polygon
        draw_boundary_no_polygon draw_all_cones_no_polygon)
  obtain s r where safe: "draw_safe_region env c par = (s, r)"
    by (cases "draw_safe_region env c par") auto
  have s: "safe_region_polygons p' s = safe_region_polygons q s" for p'
    using safe_block_pen [of p' env c par q] by (simp add: safe)
  show ?thesis
  proof (cases r)
    case None
    then show ?thesis
      using s safe_region_polygons_none [OF rest]
      by (simp add: paint_overlays_blocks safe safe_region_polygons_append
          safe_region_polygons_none [OF assms] safe_region_polygons_obstacles
          del: append_assoc)
  next
    case (Some e)
    then show ?thesis
      using s
      by (simp add: paint_overlays_blocks safe safe_region_polygons_append
          safe_region_polygons_none [OF assms] safe_region_polygons_obstacles)
  qed
qed

lemma overlays_raise_with_safe_region:
  "snd (draw_safe_region env c par) = Some e \<Longrightarrow> snd (paint_overlays env c par) = Some e"
  by (cases "draw_safe_region env c par") (simp add: paint_overlays_blocks)

lemma c_int_small: "c_int n \<Longrightarrow> \<bar>n\<bar> < 2 ^ 1023"
proof -
  assume "c_int n"
  then have "\<bar>n\<bar> \<le> 2 ^ 31"
    unfolding c_int_def abs_le_iff by auto
  also have "(2::int) ^ 31 < 2 ^ 1023"
    by (rule power_strict_increasing) simp_all
  finally show ?thesis .
qed

text \<open>On a map with nonzero sides \<open>paintEvent\<close> sets the scale and goes on to the overlays.\<close>

lemma paintEvent_reaches_overlays:
  assumes "snd (shape (binary_map c)) \<noteq> 0" "fst (shape (binary_map c)) \<noteq> 0"
    and "c_int (width (QPixmap_scaled env (sat_pixmap c) w h))"
    and "c_int (height (QPixmap_scaled env (sat_pixmap c) w h))"
    and "paintEvent env c par w h = (c', es, r)"
  shows "es = [SetRenderHint_Antialiasing, DrawPixmap 0 0 (QPixmap_scaled env (sat_pixmap c) w h)]
              @ fst (paint_overlays env c' par)
       \<and> r = snd (paint_overlays env c' par)
       \<and> free_region c' = free_region c
       \<and> left_boundary c' = left_boundary c
       \<and> right_boundary c' = right_boundary c"
proof -
  obtain sx where sx: "int_truediv (width (QPixmap_scaled env (sat_pixmap c) w h))
      (snd (shape (binary_map c))) = Inr (Fin sx)"
    using int_truediv_finite [OF assms(1) c_int_small [OF assms(3)]] by blast
  obtain sy where sy: "int_truediv (height (QPixmap_scaled env (sat_pixmap c) w h))
      (fst (shape (binary_map c))) = Inr (Fin sy)"
    using int_truediv_finite [OF assms(2) c_int_small [OF assms(4)]] by blast
  from assms(5) show ?thesis
    by (auto simp add: paintEvent_def Let_def sx sy split: prod.splits)
qed

lemma paintEvent_outcomes:
  assumes "paintEvent env c par w h = (c', es, r)"
  shows "(es = [SetRenderHint_Antialiasing, DrawPixmap 0 0 (QPixmap_scaled env (sat_pixmap c) w h)]
          \<and> r \<noteq> None)
       \<or> (es = [SetRenderHint_Antialiasing, DrawPixmap 0 0 (QPixmap_scaled env (sat_pixmap c) w h)]
                @ fst (paint_overlays env c' par)
          \<and> r = snd (paint_overlays env c' par)
          \<and> free_region c' = free_region c
          \<and> left_boundary c' = left_boundary c
          \<and> right_boundary c' = right_boundary c)"
  using assms
  by (auto simp add: paintEvent_def Let_def split: sum.splits prod.splits)

lemma entry_value_cases:
  "(float_of_text env text = Inl ValueError \<longrightarrow> entry_value env text fallback = Inr fallback)
   \<and> (\<forall>v. float_of_text env text = Inr v \<longrightarrow> entry_value env text fallback = Inr v)"
  by (simp add: entry_value_def)

text \<open>
  C4. In \<open>paintEvent\<close>, whatever the pen at its start: a polygon is drawn with the pen of
  the safe backoff region only when \<open>free_region\<close> is not \<open>None\<close> and its buffer by
  \<open>- (backoff_val * px_per_m)\<close> is returned, is non-empty and has an exterior that is not
  \<open>None\<close> with at least 4 coordinates; the polygon is that exterior, transformed to display
  coordinates with the scale just set; \<open>backoff_val\<close> is the float of the parent's backoff
  entry, and \<open>min_boundary_backoff\<close> when the text raises \<^verbatim>\<open>ValueError\<close>. At most one
  such polygon is drawn. On a map with nonzero sides, with the entry a float or a text that
  raises \<^verbatim>\<open>ValueError\<close>, the polygon is drawn whenever these conditions hold and the buffer
  is true, also when a later block raises; and an exception of \<^verbatim>\<open>buffer\<close> leaves
  \<open>paintEvent\<close> with nothing of the safe region drawn.
\<close>

theorem safe_backoff_region_drawn:
  assumes "paintEvent env c par w h = (c', es, r)"
  shows "(\<forall>q \<in> set (safe_region_polygons p es).
            \<exists>backoff_val region safe coords.
              (float_of_text env (backoff_entry_text par) = Inr backoff_val
               \<or> float_of_text env (backoff_entry_text par) = Inl ValueError
                   \<and> backoff_val = min_boundary_backoff par)
              \<and> free_region c = Some region
              \<and> buffer env region (- (backoff_val * px_per_m par)) = Inr safe
              \<and> \<not> geom_is_empty env safe
              \<and> geom_exterior env safe = Inr (Some coords)
              \<and> 4 \<le> length coords
              \<and> q = map (\<lambda>xy. to_qpointf (transform_point c' (fst xy) (snd xy))) coords)
       \<and> length (safe_region_polygons p es) \<le> 1
       \<and> (snd (shape (binary_map c)) \<noteq> 0 \<and> fst (shape (binary_map c)) \<noteq> 0
          \<and> c_int (width (QPixmap_scaled env (sat_pixmap c) w h))
          \<and> c_int (height (QPixmap_scaled env (sat_pixmap c) w h))
          \<longrightarrow>
            (\<forall>backoff_val region.
               (float_of_text env (backoff_entry_text par) = Inr backoff_val
                \<or> float_of_text env (backoff_entry_text par) = Inl ValueError
                    \<and> backoff_val = min_boundary_backoff par)
               \<and> free_region c = Some region
               \<longrightarrow>
                 (\<forall>safe coords.
                    buffer env region (- (backoff_val * px_per_m par)) = Inr safe
                    \<and> geom_bool env safe \<and> \<not> geom_is_empty env safe
                    \<and> geom_exterior env safe = Inr (Some coords)
                    \<and> 4 \<le> length coords
                    \<longrightarrow> safe_region_polygons p es
                          = [map (\<lambda>xy. to_qpointf (transform_point c' (fst xy) (snd xy))) coords])
                 \<and> (\<forall>e. buffer env region (- (backoff_val * px_per_m par)) = Inl e
                       \<longrightarrow> r = Some e \<and> safe_region_polygons p es = [])))"
proof -
  let ?image = "[SetRenderHint_Antialiasing, DrawPixmap 0 0 (QPixmap_scaled env (sat_pixmap c) w h)]"
  let ?text = "backoff_entry_text par"
  let ?fallback = "min_boundary_backoff par"
  have image: "list_all no_polygon ?image"
    by simp
  have polygons: "safe_region_polygons p (?image @ fst (paint_overlays env c' par))
      = safe_region_polygons p (fst (draw_safe_region env c' par))"
    by (rule overlays_safe_region_polygons [OF image])
  have alt: "safe_region_polygons p es = []
      \<or> (\<exists>b region safe coords.
            entry_value env ?text ?fallback = Inr b
            \<and> free_region c = Some region
            \<and> buffer env region (- (b * px_per_m par)) = Inr safe
            \<and> \<not> geom_is_empty env safe
            \<and> geom_exterior env safe = Inr (Some coords)
            \<and> 4 \<le> length coords
            \<and> safe_region_polygons p es
                = [map (\<lambda>xy. to_qpointf (transform_point c' (fst xy) (snd xy))) coords])"
  proof -
    from paintEvent_outcomes [OF assms]
    consider (stopped) "es = ?image"
      | (painted) "es = ?image @ fst (paint_overlays env c' par)" "free_region c' = free_region c"
      by blast
    then show ?thesis
    proof cases
      case stopped
      have "safe_region_polygons p es = []"
        unfolding stopped by (rule safe_region_polygons_none [OF image])
      then show ?thesis ..
    next
      case painted
      have drawn: "safe_region_polygons p es
          = safe_region_polygons p (fst (draw_safe_region env c' par))"
        unfolding painted(1) by (rule polygons)
      from draw_safe_region_shape [of env c' par] show ?thesis
      proof
        assume "\<exists>r. draw_safe_region env c' par = ([], r)"
        then have "safe_region_polygons p es = []"
          by (auto simp add: drawn safe_region_polygons_block)
        then show ?thesis ..
      next
        assume "\<exists>b region safe coords.
           entry_value env ?text ?fallback = Inr b
           \<and> free_region c' = Some region
           \<and> buffer env region (- (b * px_per_m par)) = Inr safe
           \<and> geom_bool env safe \<and> \<not> geom_is_empty env safe
           \<and> geom_exterior env safe = Inr (Some coords)
           \<and> 4 \<le> length coords
           \<and> draw_safe_region env c' par
               = ([SetPen (QPen (QColor 255 0 255) 2 DashLine),
                   DrawPolygon (map (\<lambda>p. to_qpointf (transform_point c' (fst p) (snd p))) coords)],
                  None)"
        then obtain b region safe coords where
          found: "entry_value env ?text ?fallback = Inr b"
            "free_region c' = Some region"
            "buffer env region (- (b * px_per_m par)) = Inr safe"
            "\<not> geom_is_empty env safe"
            "geom_exterior env safe = Inr (Some coords)"
            "4 \<le> length coords"
          and block: "draw_safe_region env c' par
               = ([SetPen (QPen (QColor 255 0 255) 2 DashLine),
                   DrawPolygon (map (\<lambda>p. to_qpointf (transform_point c' (fst p) (snd p))) coords)],
                  None)"
          by blast
        have "safe_region_polygons p es
            = [map (\<lambda>xy. to_qpointf (transform_point c' (fst xy) (snd xy))) coords]"
          by (simp add: drawn block safe_region_polygons_block)
        with found painted(2) show ?thesis
          by auto
      qed
    qed
  qed
  have only_when: "\<forall>q \<in> set (safe_region_polygons p es).
            \<exists>backoff_val region safe coords.
              (float_of_text env ?text = Inr backoff_val
               \<or> float_of_text env ?text = Inl ValueError \<and> backoff_val = ?fallback)
              \<and> free_region c = Some region
              \<and> buffer env region (- (backoff_val * px_per_m par)) = Inr safe
              \<and> \<not> geom_is_empty env safe
              \<and> geom_exterior env safe = Inr (Some coords)
              \<and> 4 \<le> length coords
              \<and> q = map (\<lambda>xy. to_qpointf (transform_point c' (fst xy) (snd xy))) coords"
  proof
    fix q
    assume q: "q \<in> set (safe_region_polygons p es)"
    with alt obtain b region safe coords where
      found: "entry_value env ?text ?fallback = Inr b"
        "free_region c = Some region"
        "buffer env region (- (b * px_per_m par)) = Inr safe"
        "\<not> geom_is_empty env safe"
        "geom_exterior env safe = Inr (Some coords)"
        "4 \<le> length coords"
        "safe_region_polygons p es
           = [map (\<lambda>xy. to_qpointf (transform_point c' (fst xy) (snd xy))) coords]"
      by auto
    from found(1) have reads: "float_of_text env ?text = Inr b
        \<or> float_of_text env ?text = Inl ValueError \<and> b = ?fallback"
      by (simp only: entry_value_reads)
    from q found(7) have "q = map (\<lambda>xy. to_qpointf (transform_point c' (fst xy) (snd xy))) coords"
      by simp
    with reads found(2-6) show "\<exists>backoff_val region safe coords.
              (float_of_text env ?text = Inr backoff_val
               \<or> float_of_text env ?text = Inl ValueError \<and> backoff_val = ?fallback)
              \<and> free_region c = Some region
              \<and> buffer env region (- (backoff_val * px_per_m par)) = Inr safe
              \<and> \<not> geom_is_empty env safe
              \<and> geom_exterior env safe = Inr (Some coords)
              \<and> 4 \<le> length coords
              \<and> q = map (\<lambda>xy. to_qpointf (transform_point c' (fst xy) (snd xy))) coords"
      by blast
  qed
  have at_most_one: "length (safe_region_polygons p es) \<le> 1"
    using alt by auto
  have when_reached: "(\<forall>safe coords.
                    buffer env region (- (b * px_per_m par)) = Inr safe
                    \<and> geom_bool env safe \<and> \<not> geom_is_empty env safe
                    \<and> geom_exterior env safe = Inr (Some coords)
                    \<and> 4 \<le> length coords
                    \<longrightarrow> safe_region_polygons p es
                          = [map (\<lambda>xy. to_qpointf (transform_point c' (fst xy) (snd xy))) coords])
                 \<and> (\<forall>e. buffer env region (- (b * px_per_m par)) = Inl e
                       \<longrightarrow> r = Some e \<and> safe_region_polygons p es = [])"
    if map: "snd (shape (binary_map c)) \<noteq> 0 \<and> fst (shape (binary_map c)) \<noteq> 0
          \<and> c_int (width (QPixmap_scaled env (sat_pixmap c) w h))
          \<and> c_int (height (QPixmap_scaled env (sat_pixmap c) w h))"
      and read: "(float_of_text env ?text = Inr b
                \<or> float_of_text env ?text = Inl ValueError \<and> b = ?fallback)
               \<and> free_region c = Some region"
    for b region
  proof -
    from map assms have reached: "es = ?image @ fst (paint_overlays env c' par)"
      "r = snd (paint_overlays env c' par)" "free_region c' = free_region c"
      using paintEvent_reaches_overlays [of c env w h par c' es r] by simp_all
    have drawn: "safe_region_polygons p es
        = safe_region_polygons p (fst (draw_safe_region env c' par))"
      unfolding reached(1) by (rule polygons)
    from read have entry: "entry_value env ?text ?fallback = Inr b"
      by (simp only: entry_value_reads)
    from read reached(3) have region: "free_region c' = Some region"
      by simp
    show ?thesis
    proof (intro conjI allI impI)
      fix safe coords
      assume a: "buffer env region (- (b * px_per_m par)) = Inr safe
        \<and> geom_bool env safe \<and> \<not> geom_is_empty env safe
        \<and> geom_exterior env safe = Inr (Some coords)
        \<and> 4 \<le> length coords"
      then have "draw_safe_region env c' par
          = ([SetPen (QPen (QColor 255 0 255) 2 DashLine),
              DrawPolygon (map (\<lambda>p. to_qpointf (transform_point c' (fst p) (snd p))) coords)],
             None)"
        by (simp add: draw_safe_region_def entry region)
      then show "safe_region_polygons p es
          = [map (\<lambda>xy. to_qpointf (transform_point c' (fst xy) (snd xy))) coords]"
        by (simp add: drawn safe_region_polygons_block)
    next
      fix e
      assume "buffer env region (- (b * px_per_m par)) = Inl e"
      then have block: "draw_safe_region env c' par = ([], Some e)"
        by (simp add: draw_safe_region_def entry region)
      then show "r = Some e"
        using overlays_raise_with_safe_region [of env c' par e] by (simp add: reached(2))
      show "safe_region_polygons p es = []"
        by (simp add: drawn block safe_region_polygons_block)
    qed
  qed
  from only_when at_most_one when_reached show ?thesis
    by blast
qed

theorem safe_backoff_region_drawn_witness:
  "safe_region_polygons (QPen (QColor 0 0 0) 1 SolidLine)
      (fst (snd (paintEvent example_extern constructed_canvas
         (example_parent\<lparr>backoff_entry_text := ''abc''\<rparr>) 600 300)))
     = [[QPointF (Fin (- 45)) (Fin (- 30)), QPointF (Fin (- 45)) (Fin 267),
         QPointF (Fin (801 / 2)) (Fin 267), QPointF (Fin (801 / 2)) (Fin (- 30)),
         QPointF (Fin (- 45)) (Fin (- 30))]]
   \<and> snd (snd (paintEvent example_extern constructed_canvas
         (example_parent\<lparr>backoff_entry_text := ''nan''\<rparr>) 600 300)) = Some ValueError
   \<and> safe_region_polygons (QPen (QColor 0 0 0) 1 SolidLine)
      (fst (snd (paintEvent example_extern constructed_canvas
         (example_parent\<lparr>backoff_entry_text := ''nan''\<rparr>) 600 300))) = []"
proof -
  let ?pen = "QPen (QColor 0 0 0) 1 SolidLine"
  let ?abc = "example_parent\<lparr>backoff_entry_text := ''abc''\<rparr>"
  let ?nan = "example_parent\<lparr>backoff_entry_text := ''nan''\<rparr>"
  let ?ring = "[(Fin 0, Fin 0), (Fin 0, Fin 99), (Fin 99, Fin 99), (Fin 99, Fin 0), (Fin 0, Fin 0)]"
  let ?safe = "[(Fin (- 10), Fin (- 10)), (Fin (- 10), Fin 89), (Fin 89, Fin 89),
                (Fin 89, Fin (- 10)), (Fin (- 10), Fin (- 10))]"
  let ?paint_abc = "paintEvent example_extern constructed_canvas ?abc 600 300"
  let ?paint_nan = "paintEvent example_extern constructed_canvas ?nan 600 300"
  have reached: "snd (shape (binary_map constructed_canvas)) \<noteq> 0
      \<and> fst (shape (binary_map constructed_canvas)) \<noteq> 0
      \<and> c_int (width (QPixmap_scaled example_extern (sat_pixmap constructed_canvas) 600 300))
      \<and> c_int (height (QPixmap_scaled example_extern (sat_pixmap constructed_canvas) 600 300))"
    by code_simp
  have region: "free_region constructed_canvas = Some ?ring"
    by (simp add: constructed_canvas_def)
  have fallback: "float_of_text example_extern (backoff_entry_text ?abc) = Inl ValueError
      \<and> Fin 1 = min_boundary_backoff ?abc"
    by code_simp
  have buffered: "buffer example_extern ?ring (- (Fin 1 * px_per_m ?abc)) = Inr ?safe
      \<and> geom_bool example_extern ?safe \<and> \<not> geom_is_empty example_extern ?safe
      \<and> geom_exterior example_extern ?safe = Inr (Some ?safe)
      \<and> 4 \<le> length ?safe"
    by code_simp
  have state: "fst ?paint_abc = constructed_canvas\<lparr>scale_x := Fin (9 / 2), scale_y := Fin 3\<rparr>"
    by code_simp
  have paint_abc: "?paint_abc = (fst ?paint_abc, fst (snd ?paint_abc), snd (snd ?paint_abc))"
    by simp
  from safe_backoff_region_drawn [OF paint_abc, of ?pen] reached fallback region buffered
  have "safe_region_polygons ?pen (fst (snd ?paint_abc))
      = [map (\<lambda>xy. to_qpointf (transform_point (fst ?paint_abc) (fst xy) (snd xy))) ?safe]"
    by blast
  also have "\<dots> = [[QPointF (Fin (- 45)) (Fin (- 30)), QPointF (Fin (- 45)) (Fin 267),
         QPointF (Fin (801 / 2)) (Fin 267), QPointF (Fin (801 / 2)) (Fin (- 30)),
         QPointF (Fin (- 45)) (Fin (- 30))]]"
    unfolding state by code_simp
  finally have drawn: "safe_region_polygons ?pen (fst (snd ?paint_abc))
      = [[QPointF (Fin (- 45)) (Fin (- 30)), QPointF (Fin (- 45)) (Fin 267),
         QPointF (Fin (801 / 2)) (Fin 267), QPointF (Fin (801 / 2)) (Fin (- 30)),
         QPointF (Fin (- 45)) (Fin (- 30))]]" .
  have parsed: "float_of_text example_extern (backoff_entry_text ?nan) = Inr NaN"
    by code_simp
  have refused: "buffer example_extern ?ring (- (NaN * px_per_m ?nan)) = Inl ValueError"
    by code_simp
  have paint_nan: "?paint_nan = (fst ?paint_nan, fst (snd ?paint_nan), snd (snd ?paint_nan))"
    by simp
  from safe_backoff_region_drawn [OF paint_nan, of ?pen] reached parsed region refused
  have "snd (snd ?paint_nan) = Some ValueError
      \<and> safe_region_polygons ?pen (fst (snd ?paint_nan)) = []"
    by blast
  with drawn show ?thesis
    by blast
qed

subsection \<open>Mouse events\<close>

lemma truediv_nonzero: "b \<noteq> Fin 0 \<Longrightarrow> \<exists>v. truediv a b = Inr v"
  by (cases b; cases a) auto

lemma truediv_zero: "truediv a (Fin 0) = Inl ZeroDivisionError"
  by simp

lemma inverse_transform_point_defined:
  assumes "scale_x c \<noteq> Fin 0" "scale_y c \<noteq> Fin 0"
  shows "\<exists>p. inverse_transform_point c x y = Inr p"
proof -
  obtain u where u: "truediv (x - offset_x c) (scale_x c) = Inr u"
    using truediv_nonzero [OF assms(1)] by blast
  obtain v where v: "truediv (y - offset_y c) (scale_y c) = Inr v"
    using truediv_nonzero [OF assms(2)] by blast
  show ?thesis
    by (simp add: inverse_transform_point_def u v)
qed

lemma inverse_transform_point_raises:
  assumes "scale_x c = Fin 0 \<or> scale_y c = Fin 0"
  shows "inverse_transform_point c x y = Inl ZeroDivisionError"
proof (cases "scale_x c = Fin 0")
  case True
  then show ?thesis by (simp add: inverse_transform_point_def)
next
  case False
  with assms have y0: "scale_y c = Fin 0" by simp
  obtain u where u: "truediv (x - offset_x c) (scale_x c) = Inr u"
    using truediv_nonzero [OF False] by blast
  show ?thesis by (simp add: inverse_transform_point_def u y0)
qed

text \<open>
  C5, as stated: every mouse press calls \<^verbatim>\<open>handle_canvas_click\<close>, and a mouse move calls
  \<^verbatim>\<open>handle_canvas_drag\<close> exactly when the parent is dragging. This fails when a scale is
  zero. A canvas constructed on a satellite image that cannot be read has a null image of
  width and height 0, so \<open>scale_x = scale_y = 0.0\<close>, and painting it leaves the scales at
  zero, the scaled null pixmap being null. There a mouse press, and a mouse move while
  dragging, raise \<^verbatim>\<open>ZeroDivisionError\<close> in \<open>inverse_transform_point\<close> and no handler of the
  parent is called.
\<close>

theorem mouse_press_raises_at_zero_scale:
  "init example_extern (example_parent\<lparr>fpath_location_sat_img := ''missing.png''\<rparr>)
     = Inr canvas_without_image
   \<and> fst (paintEvent example_extern canvas_without_image example_parent 600 300)
     = canvas_without_image
   \<and> mousePressEvent canvas_without_image (QPoint 5 5)
     = (canvas_without_image, [], Some ZeroDivisionError)
   \<and> dragging example_parent
   \<and> mouseMoveEvent canvas_without_image example_parent (QPoint 5 5)
     = (canvas_without_image, [], Some ZeroDivisionError)"
  by code_simp

text \<open>
  C5, amended: in a state with nonzero \<open>scale_x\<close> and \<open>scale_y\<close>, a mouse press calls
  \<^verbatim>\<open>handle_canvas_click\<close> with exactly the inverse-transformed cursor position and nothing
  else, and a mouse move calls \<^verbatim>\<open>handle_canvas_drag\<close> with that position if the parent is
  dragging and calls nothing if it is not; when a scale is zero both raise
  \<^verbatim>\<open>ZeroDivisionError\<close> before any call (the move only while dragging). In every case the
  canvas is left as it was: neither handler changes a field of it.
\<close>

theorem mouse_events_delegate_to_parent:
  "(scale_x c \<noteq> Fin 0 \<and> scale_y c \<noteq> Fin 0 \<longrightarrow>
      (\<exists>mx my. inverse_transform_point c (float_of_int (px pos)) (float_of_int (py pos)) = Inr (mx, my)
         \<and> mousePressEvent c pos = (c, [Handle_canvas_click (QPointF mx my)], None)
         \<and> mouseMoveEvent c par pos
           = (c, if dragging par then [Handle_canvas_drag (QPointF mx my)] else [], None)))
   \<and> (scale_x c = Fin 0 \<or> scale_y c = Fin 0 \<longrightarrow>
        mousePressEvent c pos = (c, [], Some ZeroDivisionError)
        \<and> mouseMoveEvent c par pos
          = (c, [], if dragging par then Some ZeroDivisionError else None))
   \<and> fst (mousePressEvent c pos) = c
   \<and> fst (mouseMoveEvent c par pos) = c"
proof (intro conjI impI)
  assume nz: "scale_x c \<noteq> Fin 0 \<and> scale_y c \<noteq> Fin 0"
  then obtain p where p: "inverse_transform_point c (float_of_int (px pos)) (float_of_int (py pos)) = Inr p"
    using inverse_transform_point_defined by blast
  show "\<exists>mx my. inverse_transform_point c (float_of_int (px pos)) (float_of_int (py pos)) = Inr (mx, my)
         \<and> mousePressEvent c pos = (c, [Handle_canvas_click (QPointF mx my)], None)
         \<and> mouseMoveEvent c par pos
           = (c, if dragging par then [Handle_canvas_drag (QPointF mx my)] else [], None)"
    by (rule exI [of _ "fst p"], rule exI [of _ "snd p"])
      (simp add: p mousePressEvent_def mouseMoveEvent_def case_prod_beta)
next
  assume z: "scale_x c = Fin 0 \<or> scale_y c = Fin 0"
  show "mousePressEvent c pos = (c, [], Some ZeroDivisionError)"
    by (simp add: mousePressEvent_def inverse_transform_point_raises [OF z])
  show "mouseMoveEvent c par pos = (c, [], if dragging par then Some ZeroDivisionError else None)"
    by (simp add: mouseMoveEvent_def inverse_transform_point_raises [OF z])
next
  show "fst (mousePressEvent c pos) = c"
    by (simp add: mousePressEvent_def split: sum.splits prod.splits)
  show "fst (mouseMoveEvent c par pos) = c"
    by (simp add: mouseMoveEvent_def split: sum.splits prod.splits)
qed

theorem mouse_events_delegate_witness:
  "mousePressEvent (blank_canvas\<lparr>scale_x := Fin 2, scale_y := Fin 4\<rparr>) (QPoint 10 20)
     = (blank_canvas\<lparr>scale_x := Fin 2, scale_y := Fin 4\<rparr>,
        [Handle_canvas_click (QPointF (Fin 5) (Fin 5))], None)
   \<and> mouseMoveEvent (blank_canvas\<lparr>scale_x := Fin 2, scale_y := Fin 4\<rparr>) example_parent (QPoint 10 20)
     = (blank_canvas\<lparr>scale_x := Fin 2, scale_y := Fin 4\<rparr>,
        [Handle_canvas_drag (QPointF (Fin 5) (Fin 5))], None)
   \<and> mouseMoveEvent (blank_canvas\<lparr>scale_x := Fin 2, scale_y := Fin 4\<rparr>)
        (example_parent\<lparr>dragging := False\<rparr>) (QPoint 10 20)
     = (blank_canvas\<lparr>scale_x := Fin 2, scale_y := Fin 4\<rparr>, [], None)
   \<and> mousePressEvent (blank_canvas\<lparr>scale_x := Fin 0\<rparr>) (QPoint 10 20)
     = (blank_canvas\<lparr>scale_x := Fin 0\<rparr>, [], Some ZeroDivisionError)"
proof -
  let ?c = "blank_canvas\<lparr>scale_x := Fin 2, scale_y := Fin 4\<rparr>"
  let ?z = "blank_canvas\<lparr>scale_x := Fin 0\<rparr>"
  have nz: "scale_x ?c \<noteq> Fin 0 \<and> scale_y ?c \<noteq> Fin 0"
    by (simp add: blank_canvas_def)
  have z: "scale_x ?z = Fin 0 \<or> scale_y ?z = Fin 0"
    by (simp add: blank_canvas_def)
  have inv: "inverse_transform_point ?c (float_of_int (px (QPoint 10 20))) (float_of_int (py (QPoint 10 20)))
      = Inr (Fin 5, Fin 5)"
    by code_simp
  have d: "dragging example_parent" "\<not> dragging (example_parent\<lparr>dragging := False\<rparr>)"
    by (simp_all add: example_parent_def)
  from mouse_events_delegate_to_parent [of ?c "QPoint 10 20" example_parent] nz inv d
  have a: "mousePressEvent ?c (QPoint 10 20) = (?c, [Handle_canvas_click (QPointF (Fin 5) (Fin 5))], None)"
    and b: "mouseMoveEvent ?c example_parent (QPoint 10 20) = (?c, [Handle_canvas_drag (QPointF (Fin 5) (Fin 5))], None)"
    by auto
  from mouse_events_delegate_to_parent [of ?c "QPoint 10 20" "example_parent\<lparr>dragging := False\<rparr>"] nz inv d
  have e: "mouseMoveEvent ?c (example_parent\<lparr>dragging := False\<rparr>) (QPoint 10 20) = (?c, [], None)"
    by auto
  from mouse_events_delegate_to_parent [of ?z "QPoint 10 20" example_parent] z
  have f: "mousePressEvent ?z (QPoint 10 20) = (?z, [], Some ZeroDivisionError)"
    by blast
  from a b e f show ?thesis by blast
qed

subsection \<open>Scaling factors\<close>

text \<open>
  C6. On an occupancy map of nonzero width and height, \<open>calculate_scaling_factors\<close> sets
  \<open>scale_x\<close> to the width of the satellite image divided by the width of the occupancy
  map and \<open>scale_y\<close> to the height of the image divided by the height of the map, each
  quotient from its own axis only and rounded to a float, changes nothing else and does not
  raise; \<open>paintEvent\<close> then replaces both, whatever they were, by the width and the
  height of the pixmap scaled to the widget with its aspect ratio kept, divided by the same
  width and height of the map.
\<close>

theorem scaling_factors_per_axis:
  assumes "shape (binary_map c) = (occ_height, occ_width)"
    and "occ_width \<noteq> 0" "occ_height \<noteq> 0"
    and "c_int (width (sat_image c))" "c_int (height (sat_image c))"
    and "QPixmap_scaled env (sat_pixmap c) w h = scaled_pixmap"
    and "c_int (width scaled_pixmap)" "c_int (height scaled_pixmap)"
  shows "\<exists>sx sy dx dy.
           round_double (of_int (width (sat_image c)) / of_int occ_width) = Fin sx
         \<and> round_double (of_int (height (sat_image c)) / of_int occ_height) = Fin sy
         \<and> calculate_scaling_factors c = (c\<lparr>scale_x := Fin sx, scale_y := Fin sy\<rparr>, [], None)
         \<and> round_double (of_int (width scaled_pixmap) / of_int occ_width) = Fin dx
         \<and> round_double (of_int (height scaled_pixmap) / of_int occ_height) = Fin dy
         \<and> fst (paintEvent env (c\<lparr>scale_x := Fin sx, scale_y := Fin sy\<rparr>) par w h)
             = c\<lparr>scale_x := Fin dx, scale_y := Fin dy\<rparr>"
proof -
  have small: "\<bar>n\<bar> < 2 ^ 1023" if "c_int n" for n
  proof -
    from that have "\<bar>n\<bar> \<le> 2 ^ 31"
      unfolding c_int_def abs_le_iff by auto
    also have "(2::int) ^ 31 < 2 ^ 1023"
      by (rule power_strict_increasing) simp_all
    finally show ?thesis .
  qed
  obtain sx where sx: "int_truediv (width (sat_image c)) occ_width = Inr (Fin sx)"
      "round_double (of_int (width (sat_image c)) / of_int occ_width) = Fin sx"
    using int_truediv_finite [OF assms(2) small [OF assms(4)]] by blast
  obtain sy where sy: "int_truediv (height (sat_image c)) occ_height = Inr (Fin sy)"
      "round_double (of_int (height (sat_image c)) / of_int occ_height) = Fin sy"
    using int_truediv_finite [OF assms(3) small [OF assms(5)]] by blast
  obtain dx where dx: "int_truediv (width scaled_pixmap) occ_width = Inr (Fin dx)"
      "round_double (of_int (width scaled_pixmap) / of_int occ_width) = Fin dx"
    using int_truediv_finite [OF assms(2) small [OF assms(7)]] by blast
  obtain dy where dy: "int_truediv (height scaled_pixmap) occ_height = Inr (Fin dy)"
      "round_double (of_int (height scaled_pixmap) / of_int occ_height) = Fin dy"
    using int_truediv_finite [OF assms(3) small [OF assms(8)]] by blast
  have calc: "calculate_scaling_factors c = (c\<lparr>scale_x := Fin sx, scale_y := Fin sy\<rparr>, [], None)"
    by (simp add: calculate_scaling_factors_def assms(1) sx(1) sy(1))
  have paint: "fst (paintEvent env (c\<lparr>scale_x := Fin sx, scale_y := Fin sy\<rparr>) par w h)
      = c\<lparr>scale_x := Fin dx, scale_y := Fin dy\<rparr>"
    by (simp add: paintEvent_def Let_def assms(1) assms(6) dx(1) dy(1) split: prod.splits)
  from sx(2) sy(2) calc dx(2) dy(2) paint show ?thesis
    by blast
qed

theorem scaling_factors_per_axis_witness:
  "calculate_scaling_factors (constructed_canvas\<lparr>scale_x := Fin 1, scale_y := Fin 1\<rparr>)
     = (constructed_canvas\<lparr>scale_x := Fin 3, scale_y := Fin 2\<rparr>, [], None)
   \<and> fst (paintEvent example_extern (constructed_canvas\<lparr>scale_x := Fin 3, scale_y := Fin 2\<rparr>)
            example_parent 600 300)
     = constructed_canvas\<lparr>scale_x := Fin (9 / 2), scale_y := Fin 3\<rparr>"
proof -
  let ?c = "constructed_canvas\<lparr>scale_x := Fin 1, scale_y := Fin 1\<rparr>"
  let ?scaled = "\<lparr> width = 450, height = 300, pixel_data = [] \<rparr>"
  have s: "shape (binary_map ?c) = (100, 100)"
    by (simp add: constructed_canvas_def)
  have nz: "(100::int) \<noteq> 0"
    by simp
  have sizes: "c_int (width (sat_image ?c))" "c_int (height (sat_image ?c))"
    "c_int (width ?scaled)" "c_int (height ?scaled)"
    by (simp_all add: constructed_canvas_def c_int_def)
  have p: "QPixmap_scaled example_extern (sat_pixmap ?c) 600 300 = ?scaled"
    by code_simp
  have x: "round_double (of_int (width (sat_image ?c)) / of_int 100) = Fin 3"
    by code_simp
  have y: "round_double (of_int (height (sat_image ?c)) / of_int 100) = Fin 2"
    by code_simp
  have dx: "round_double (of_int (width ?scaled) / of_int 100) = Fin (9 / 2)"
    by code_simp
  have dy: "round_double (of_int (height ?scaled) / of_int 100) = Fin 3"
    by code_simp
  from scaling_factors_per_axis [OF s nz nz sizes(1,2) p sizes(3,4), of example_parent]
  obtain sx sy ex ey where
    r: "round_double (of_int (width (sat_image ?c)) / of_int 100) = Fin sx"
       "round_double (of_int (height (sat_image ?c)) / of_int 100) = Fin sy"
       "calculate_scaling_factors ?c = (?c\<lparr>scale_x := Fin sx, scale_y := Fin sy\<rparr>, [], None)"
       "round_double (of_int (width ?scaled) / of_int 100) = Fin ex"
       "round_double (of_int (height ?scaled) / of_int 100) = Fin ey"
       "fst (paintEvent example_extern (?c\<lparr>scale_x := Fin sx, scale_y := Fin sy\<rparr>) example_parent 600 300)
          = ?c\<lparr>scale_x := Fin ex, scale_y := Fin ey\<rparr>"
    by blast
  from r(1) x have sx: "sx = 3" by simp
  from r(2) y have sy: "sy = 2" by simp
  from r(4) dx have ex: "ex = 9 / 2" by simp
  from r(5) dy have ey: "ey = 3" by simp
  from r(3) r(6) show ?thesis
    unfolding sx sy ex ey by (simp add: constructed_canvas_def)
qed

subsection \<open>Cones\<close>

lemma cone_marks:
  "cone_calls (map (\<lambda>pt. DrawEllipse (f pt) 3 3) cones) = []"
  "cone_ellipses (map (\<lambda>pt. DrawEllipse (f pt) 3 3) cones) = map f cones"
  by (induction cones) simp_all

lemma draw_cones_calls:
  "cone_calls (draw_cones env c par boundary spacing col) = boundary_cone_call par spacing boundary"
  by (cases boundary)
    (simp_all add: draw_cones_def boundary_cone_call_def drawable_def Let_def cone_marks)

lemma draw_cones_ellipses:
  "cone_ellipses (draw_cones env c par boundary spacing col)
     = cones_displayed env c (boundary_cone_call par spacing boundary)"
  by (cases boundary)
    (simp_all add: draw_cones_def boundary_cone_call_def cones_displayed_def drawable_def
      Let_def cone_marks)

lemma cones_displayed_append:
  "cones_displayed env c (xs @ ys) = cones_displayed env c xs @ cones_displayed env c ys"
  by (simp add: cones_displayed_def)

lemma draw_all_cones_calls:
  "cone_calls (fst (draw_all_cones env c par)) =
     (case entry_value env (cone_spacing_entry_text par) (default_cone_distance par) of
        Inl e \<Rightarrow> []
      | Inr spacing \<Rightarrow>
          boundary_cone_call par spacing (left_boundary c)
          @ boundary_cone_call par spacing (right_boundary c))"
  by (cases "entry_value env (cone_spacing_entry_text par) (default_cone_distance par)")
    (simp_all add: draw_all_cones_def cone_calls_append draw_cones_calls)

lemma draw_all_cones_ellipses:
  "cone_ellipses (fst (draw_all_cones env c par))
     = cones_displayed env c (cone_calls (fst (draw_all_cones env c par)))"
  by (cases "entry_value env (cone_spacing_entry_text par) (default_cone_distance par)")
    (simp_all add: draw_all_cones_def cone_calls_append cone_ellipses_append draw_cones_calls
      draw_cones_ellipses cones_displayed_append cones_displayed_def)

lemma draw_all_cones_raised:
  "snd (draw_all_cones env c par) = None
     \<longleftrightarrow> (\<exists>spacing. entry_value env (cone_spacing_entry_text par) (default_cone_distance par)
            = Inr spacing)"
  by (cases "entry_value env (cone_spacing_entry_text par) (default_cone_distance par)")
    (simp_all add: draw_all_cones_def)

lemma overlays_cones:
  assumes "list_all no_cone pre"
  shows "cone_calls (pre @ fst (paint_overlays env c par))
           = (if snd (paint_overlays env c par) = None
              then cone_calls (fst (draw_all_cones env c par)) else [])"
    and "cone_ellipses (pre @ fst (paint_overlays env c par))
           = (if snd (paint_overlays env c par) = None
              then cone_ellipses (fst (draw_all_cones env c par)) else [])"
proof -
  obtain s r where safe: "draw_safe_region env c par = (s, r)"
    by (cases "draw_safe_region env c par") auto
  have s: "list_all no_cone s"
    using draw_safe_region_no_cone [of env c par] by (simp add: safe)
  have before: "list_all no_cone
      (pre @ draw_obstacles c @ s @ draw_control_points c @ draw_centerline c
         @ draw_boundary c (left_boundary c) col1 @ draw_boundary c (right_boundary c) col2)"
    for col1 col2
    by (simp add: assms s draw_obstacles_no_cone draw_control_points_no_cone
        draw_centerline_no_cone draw_boundary_no_cone)
  have stopped: "list_all no_cone (pre @ draw_obstacles c @ s)"
    by (simp add: assms s draw_obstacles_no_cone)
  obtain cs cr where cones: "draw_all_cones env c par = (cs, cr)"
    by (cases "draw_all_cones env c par") auto
  have raised: "cr \<noteq> None \<Longrightarrow> cs = []"
    using cones by (auto simp add: draw_all_cones_def split: sum.splits)
  show "cone_calls (pre @ fst (paint_overlays env c par))
           = (if snd (paint_overlays env c par) = None
              then cone_calls (fst (draw_all_cones env c par)) else [])"
  proof (cases r)
    case (Some e)
    then show ?thesis
      using cone_calls_none [OF stopped] by (simp add: paint_overlays_blocks safe)
  next
    case None
    have "cone_calls (pre @ fst (paint_overlays env c par)) = cone_calls cs"
      using cone_calls_none [OF before]
      by (simp add: paint_overlays_blocks safe None cones cone_calls_append)
    then show ?thesis
      using raised by (auto simp add: paint_overlays_blocks safe None cones)
  qed
  show "cone_ellipses (pre @ fst (paint_overlays env c par))
           = (if snd (paint_overlays env c par) = None
              then cone_ellipses (fst (draw_all_cones env c par)) else [])"
  proof (cases r)
    case (Some e)
    then show ?thesis
      using cone_ellipses_none [OF stopped] by (simp add: paint_overlays_blocks safe)
  next
    case None
    have "cone_ellipses (pre @ fst (paint_overlays env c par)) = cone_ellipses cs"
      using cone_ellipses_none [OF before]
      by (simp add: paint_overlays_blocks safe None cones cone_ellipses_append)
    then show ?thesis
      using raised by (auto simp add: paint_overlays_blocks safe None cones)
  qed
qed

lemma overlays_completed:
  assumes "snd (paint_overlays env c par) = None"
  shows "snd (draw_all_cones env c par) = None"
proof -
  obtain s r where safe: "draw_safe_region env c par = (s, r)"
    by (cases "draw_safe_region env c par") auto
  from assms show ?thesis
    by (cases r) (simp_all add: paint_overlays_blocks safe)
qed

lemma boundary_cone_call_member:
  assumes "call \<in> set (boundary_cone_call par spacing boundary)"
  shows "\<exists>pts. boundary = Some pts \<and> pts \<noteq> [] \<and> 1 < length pts
           \<and> call = (map path_xy pts, spacing, px_per_m par)"
  using assms
  by (cases boundary) (auto simp add: boundary_cone_call_def split: if_splits)

lemma draw_safe_region_returns:
  "snd (draw_safe_region env c par) = None \<longleftrightarrow> safe_region_block_returns env c par"
proof (cases "entry_value env (backoff_entry_text par) (min_boundary_backoff par)")
  case (Inl e)
  then have "float_of_text env (backoff_entry_text par) = Inl e" "e \<noteq> ValueError"
    by (simp_all add: entry_value_raises)
  then have "\<not> safe_region_block_returns env c par"
    by (auto simp add: safe_region_block_returns_def)
  with draw_safe_region_parse_raises [OF Inl, of c] show ?thesis
    by simp
next
  case (Inr b)
  have unique: "b' = b"
    if "float_of_text env (backoff_entry_text par) = Inr b'
      \<or> float_of_text env (backoff_entry_text par) = Inl ValueError
          \<and> b' = min_boundary_backoff par" for b'
    using that Inr by (auto simp add: entry_value_reads)
  have reads: "float_of_text env (backoff_entry_text par) = Inr b
      \<or> float_of_text env (backoff_entry_text par) = Inl ValueError
          \<and> b = min_boundary_backoff par"
    using Inr by (simp only: entry_value_reads)
  have returns: "safe_region_block_returns env c par \<longleftrightarrow>
      free_region c = None
      \<or> (\<exists>region safe.
            free_region c = Some region
            \<and> buffer env region (- (b * px_per_m par)) = Inr safe
            \<and> (geom_bool env safe \<and> \<not> geom_is_empty env safe
                 \<longrightarrow> (\<exists>exterior. geom_exterior env safe = Inr exterior)))"
    unfolding safe_region_block_returns_def using unique reads by blast
  from draw_safe_region_read [OF Inr, of c] show ?thesis
    unfolding returns by (elim disjE exE conjE) auto
qed


lemma safe_region_block_returns_region:
  "free_region c' = free_region c
     \<Longrightarrow> safe_region_block_returns env c' par = safe_region_block_returns env c par"
  by (simp add: safe_region_block_returns_def)

lemma overlays_after_safe_region:
  "snd (draw_safe_region env c par) = None
     \<Longrightarrow> snd (paint_overlays env c par) = snd (draw_all_cones env c par)"
  by (cases "draw_safe_region env c par") (simp add: paint_overlays_blocks)

text \<open>
  C7. In \<open>paintEvent\<close>, every call of \<^verbatim>\<open>sample_cones\<close> is for the left or the right
  boundary, which is then not \<open>None\<close>, not empty and has more than one point; it passes the
  map coordinates of the boundary points, the float of the parent's cone spacing entry
  (\<open>default_cone_distance\<close> when the text raises \<^verbatim>\<open>ValueError\<close>) and \<open>px_per_m\<close>. A run that
  raises samples no cone. On a map with nonzero sides, when the block of the safe region
  raises nothing and the spacing entry is a float or a text that raises \<^verbatim>\<open>ValueError\<close>,
  \<open>paintEvent\<close> raises nothing and there is exactly one call for each such boundary, the
  left one first; any other exception of the spacing entry leaves \<open>paintEvent\<close>. The cone
  marks drawn are exactly the points these calls returned, in display coordinates: the
  canvas computes no spacing of its own.
\<close>

theorem cones_sampled_for_boundaries:
  assumes "paintEvent env c par w h = (c', es, r)"
  shows "(\<forall>call \<in> set (cone_calls es).
            \<exists>boundary spacing.
              call = (map path_xy boundary, spacing, px_per_m par)
              \<and> (left_boundary c = Some boundary \<or> right_boundary c = Some boundary)
              \<and> boundary \<noteq> [] \<and> 1 < length boundary
              \<and> (float_of_text env (cone_spacing_entry_text par) = Inr spacing
                 \<or> float_of_text env (cone_spacing_entry_text par) = Inl ValueError
                     \<and> spacing = default_cone_distance par))
       \<and> (r \<noteq> None \<longrightarrow> cone_calls es = [])
       \<and> (snd (shape (binary_map c)) \<noteq> 0 \<and> fst (shape (binary_map c)) \<noteq> 0
          \<and> c_int (width (QPixmap_scaled env (sat_pixmap c) w h))
          \<and> c_int (height (QPixmap_scaled env (sat_pixmap c) w h))
          \<and> safe_region_block_returns env c par
          \<longrightarrow>
            (\<forall>spacing.
               float_of_text env (cone_spacing_entry_text par) = Inr spacing
               \<or> float_of_text env (cone_spacing_entry_text par) = Inl ValueError
                   \<and> spacing = default_cone_distance par
               \<longrightarrow> r = None
                   \<and> cone_calls es
                       = boundary_cone_call par spacing (left_boundary c)
                         @ boundary_cone_call par spacing (right_boundary c))
            \<and> (\<forall>e. float_of_text env (cone_spacing_entry_text par) = Inl e \<and> e \<noteq> ValueError
                  \<longrightarrow> r = Some e))
       \<and> cone_ellipses es = cones_displayed env c' (cone_calls es)"
proof -
  let ?image = "[SetRenderHint_Antialiasing, DrawPixmap 0 0 (QPixmap_scaled env (sat_pixmap c) w h)]"
  let ?text = "cone_spacing_entry_text par"
  let ?fallback = "default_cone_distance par"
  have image: "list_all no_cone ?image"
    by simp
  have summary: "(cone_calls es = [] \<and> cone_ellipses es = [])
      \<or> (r = None
         \<and> (\<exists>spacing.
               entry_value env ?text ?fallback = Inr spacing
               \<and> cone_calls es
                   = boundary_cone_call par spacing (left_boundary c)
                     @ boundary_cone_call par spacing (right_boundary c))
         \<and> cone_ellipses es = cones_displayed env c' (cone_calls es))"
  proof -
    from paintEvent_outcomes [OF assms]
    consider (stopped) "es = ?image" "r \<noteq> None"
      | (painted) "es = ?image @ fst (paint_overlays env c' par)"
          "r = snd (paint_overlays env c' par)"
          "left_boundary c' = left_boundary c" "right_boundary c' = right_boundary c"
      by blast
    then show ?thesis
    proof cases
      case stopped
      have "cone_calls es = []" "cone_ellipses es = []"
        unfolding stopped(1)
        by (rule cone_calls_none [OF image], rule cone_ellipses_none [OF image])
      then show ?thesis by simp
    next
      case painted
      show ?thesis
      proof (cases r)
        case (Some e)
        then have "cone_calls es = []" "cone_ellipses es = []"
          using overlays_cones [OF image, of env c' par] painted(1,2) by simp_all
        then show ?thesis by simp
      next
        case None
        then have calls: "cone_calls es = cone_calls (fst (draw_all_cones env c' par))"
          and ellipses: "cone_ellipses es = cone_ellipses (fst (draw_all_cones env c' par))"
          using overlays_cones [OF image, of env c' par] painted(1,2) by simp_all
        from None painted(2) have "snd (draw_all_cones env c' par) = None"
          using overlays_completed [of env c' par] by simp
        then obtain spacing where
          spacing: "entry_value env ?text ?fallback = Inr spacing"
          using draw_all_cones_raised [of env c' par] by blast
        have both: "cone_calls es
            = boundary_cone_call par spacing (left_boundary c)
              @ boundary_cone_call par spacing (right_boundary c)"
          by (simp add: calls draw_all_cones_calls spacing painted(3,4))
        have displayed: "cone_ellipses es = cones_displayed env c' (cone_calls es)"
          by (simp only: ellipses calls draw_all_cones_ellipses)
        from None spacing both displayed show ?thesis
          by blast
      qed
    qed
  qed
  have marks: "cone_ellipses es = cones_displayed env c' (cone_calls es)"
    using summary by (auto simp add: cones_displayed_def)
  have none_raised: "r \<noteq> None \<longrightarrow> cone_calls es = []"
    using summary by auto
  have only_when: "\<forall>call \<in> set (cone_calls es).
            \<exists>boundary spacing.
              call = (map path_xy boundary, spacing, px_per_m par)
              \<and> (left_boundary c = Some boundary \<or> right_boundary c = Some boundary)
              \<and> boundary \<noteq> [] \<and> 1 < length boundary
              \<and> (float_of_text env ?text = Inr spacing
                 \<or> float_of_text env ?text = Inl ValueError \<and> spacing = ?fallback)"
  proof
    fix call
    assume call: "call \<in> set (cone_calls es)"
    with summary obtain spacing where
      spacing: "entry_value env ?text ?fallback = Inr spacing"
      and both: "cone_calls es
            = boundary_cone_call par spacing (left_boundary c)
              @ boundary_cone_call par spacing (right_boundary c)"
      by auto
    from call have "call \<in> set (boundary_cone_call par spacing (left_boundary c))
        \<or> call \<in> set (boundary_cone_call par spacing (right_boundary c))"
      by (simp add: both)
    then obtain boundary where
      found: "left_boundary c = Some boundary \<or> right_boundary c = Some boundary"
        "boundary \<noteq> []" "1 < length boundary"
        "call = (map path_xy boundary, spacing, px_per_m par)"
      using boundary_cone_call_member by blast
    from spacing have "float_of_text env ?text = Inr spacing
        \<or> float_of_text env ?text = Inl ValueError \<and> spacing = ?fallback"
      by (simp only: entry_value_reads)
    with found show "\<exists>boundary spacing.
              call = (map path_xy boundary, spacing, px_per_m par)
              \<and> (left_boundary c = Some boundary \<or> right_boundary c = Some boundary)
              \<and> boundary \<noteq> [] \<and> 1 < length boundary
              \<and> (float_of_text env ?text = Inr spacing
                 \<or> float_of_text env ?text = Inl ValueError \<and> spacing = ?fallback)"
      by blast
  qed
  have when_reached:
    "(\<forall>spacing.
        float_of_text env ?text = Inr spacing
        \<or> float_of_text env ?text = Inl ValueError \<and> spacing = ?fallback
        \<longrightarrow> r = None
            \<and> cone_calls es
                = boundary_cone_call par spacing (left_boundary c)
                  @ boundary_cone_call par spacing (right_boundary c))
     \<and> (\<forall>e. float_of_text env ?text = Inl e \<and> e \<noteq> ValueError \<longrightarrow> r = Some e)"
    if reach: "snd (shape (binary_map c)) \<noteq> 0 \<and> fst (shape (binary_map c)) \<noteq> 0
          \<and> c_int (width (QPixmap_scaled env (sat_pixmap c) w h))
          \<and> c_int (height (QPixmap_scaled env (sat_pixmap c) w h))
          \<and> safe_region_block_returns env c par"
  proof -
    from reach assms have reached: "es = ?image @ fst (paint_overlays env c' par)"
      "r = snd (paint_overlays env c' par)" "free_region c' = free_region c"
      "left_boundary c' = left_boundary c" "right_boundary c' = right_boundary c"
      using paintEvent_reaches_overlays [of c env w h par c' es r] by simp_all
    from reach have "safe_region_block_returns env c' par"
      by (simp only: safe_region_block_returns_region [OF reached(3), of env par])
    then have "snd (draw_safe_region env c' par) = None"
      by (simp only: draw_safe_region_returns)
    then have r: "r = snd (draw_all_cones env c' par)"
      unfolding reached(2) by (rule overlays_after_safe_region)
    show ?thesis
    proof (intro conjI allI impI)
      fix spacing
      assume "float_of_text env ?text = Inr spacing
        \<or> float_of_text env ?text = Inl ValueError \<and> spacing = ?fallback"
      then have spacing: "entry_value env ?text ?fallback = Inr spacing"
        by (simp only: entry_value_reads)
      then show none: "r = None"
        unfolding r by (simp add: draw_all_cones_def)
      then have "cone_calls es = cone_calls (fst (draw_all_cones env c' par))"
        using overlays_cones(1) [OF image, of env c' par] reached(1,2) by simp
      then show "cone_calls es
          = boundary_cone_call par spacing (left_boundary c)
            @ boundary_cone_call par spacing (right_boundary c)"
        by (simp add: draw_all_cones_calls spacing reached(4,5))
    next
      fix e
      assume "float_of_text env ?text = Inl e \<and> e \<noteq> ValueError"
      then have "entry_value env ?text ?fallback = Inl e"
        by (simp add: entry_value_raises)
      then show "r = Some e"
        unfolding r by (simp add: draw_all_cones_def)
    qed
  qed
  from only_when none_raised when_reached marks show ?thesis
    by blast
qed


theorem cones_sampled_for_boundaries_witness:
  "cone_calls
      (fst (snd (paintEvent example_extern
         (constructed_canvas\<lparr>left_boundary := Some [Raw_point (Fin 1) (Fin 2), Qt_point (QPointF (Fin 3) (Fin 4))],
                              right_boundary := Some [Raw_point (Fin 5) (Fin 6)]\<rparr>)
         example_parent 600 300)))
     = [([(Fin 1, Fin 2), (Fin 3, Fin 4)], Fin 3, Fin 10)]
   \<and> snd (snd (paintEvent example_extern
         (constructed_canvas\<lparr>left_boundary := Some [Raw_point (Fin 1) (Fin 2), Qt_point (QPointF (Fin 3) (Fin 4))],
                              right_boundary := Some [Raw_point (Fin 5) (Fin 6)]\<rparr>)
         example_parent 600 300)) = None
   \<and> cone_ellipses
      (fst (snd (paintEvent example_extern
         (constructed_canvas\<lparr>left_boundary := Some [Raw_point (Fin 1) (Fin 2), Qt_point (QPointF (Fin 3) (Fin 4))],
                              right_boundary := Some [Raw_point (Fin 5) (Fin 6)]\<rparr>)
         example_parent 600 300)))
     = cones_displayed example_extern
         (constructed_canvas\<lparr>scale_x := Fin (9 / 2), scale_y := Fin 3,
            left_boundary := Some [Raw_point (Fin 1) (Fin 2), Qt_point (QPointF (Fin 3) (Fin 4))],
            right_boundary := Some [Raw_point (Fin 5) (Fin 6)]\<rparr>)
         [([(Fin 1, Fin 2), (Fin 3, Fin 4)], Fin 3, Fin 10)]
   \<and> cone_calls
      (fst (snd (paintEvent example_extern
         (constructed_canvas\<lparr>left_boundary := Some [Raw_point (Fin 1) (Fin 2), Qt_point (QPointF (Fin 3) (Fin 4))],
                              right_boundary := Some [Raw_point (Fin 5) (Fin 6)]\<rparr>)
         (example_parent\<lparr>backoff_entry_text := ''nan''\<rparr>) 600 300))) = []"
proof -
  let ?c = "constructed_canvas\<lparr>left_boundary := Some [Raw_point (Fin 1) (Fin 2), Qt_point (QPointF (Fin 3) (Fin 4))],
                              right_boundary := Some [Raw_point (Fin 5) (Fin 6)]\<rparr>"
  let ?ring = "[(Fin 0, Fin 0), (Fin 0, Fin 99), (Fin 99, Fin 99), (Fin 99, Fin 0), (Fin 0, Fin 0)]"
  let ?safe = "[(Fin (- 20), Fin (- 20)), (Fin (- 20), Fin 79), (Fin 79, Fin 79),
                (Fin 79, Fin (- 20)), (Fin (- 20), Fin (- 20))]"
  let ?nan = "example_parent\<lparr>backoff_entry_text := ''nan''\<rparr>"
  let ?paint = "paintEvent example_extern ?c example_parent 600 300"
  let ?paint_nan = "paintEvent example_extern ?c ?nan 600 300"
  have sides: "snd (shape (binary_map ?c)) \<noteq> 0 \<and> fst (shape (binary_map ?c)) \<noteq> 0
      \<and> c_int (width (QPixmap_scaled example_extern (sat_pixmap ?c) 600 300))
      \<and> c_int (height (QPixmap_scaled example_extern (sat_pixmap ?c) 600 300))"
    by code_simp
  have parts: "float_of_text example_extern (backoff_entry_text example_parent) = Inr (Fin 2)
      \<and> free_region ?c = Some ?ring
      \<and> buffer example_extern ?ring (- (Fin 2 * px_per_m example_parent)) = Inr ?safe
      \<and> geom_exterior example_extern ?safe = Inr (Some ?safe)"
    by code_simp
  then have returns: "safe_region_block_returns example_extern ?c example_parent"
    unfolding safe_region_block_returns_def by blast
  have fallback: "float_of_text example_extern (cone_spacing_entry_text example_parent) = Inl ValueError
      \<and> Fin 3 = default_cone_distance example_parent"
    by code_simp
  have due: "boundary_cone_call example_parent (Fin 3) (left_boundary ?c)
      @ boundary_cone_call example_parent (Fin 3) (right_boundary ?c)
      = [([(Fin 1, Fin 2), (Fin 3, Fin 4)], Fin 3, Fin 10)]"
    by code_simp
  have state: "fst ?paint
      = constructed_canvas\<lparr>scale_x := Fin (9 / 2), scale_y := Fin 3,
            left_boundary := Some [Raw_point (Fin 1) (Fin 2), Qt_point (QPointF (Fin 3) (Fin 4))],
            right_boundary := Some [Raw_point (Fin 5) (Fin 6)]\<rparr>"
    by code_simp
  have paint: "?paint = (fst ?paint, fst (snd ?paint), snd (snd ?paint))"
    by simp
  from cones_sampled_for_boundaries [OF paint] sides returns fallback
  have sampled: "snd (snd ?paint) = None
      \<and> cone_calls (fst (snd ?paint))
          = boundary_cone_call example_parent (Fin 3) (left_boundary ?c)
            @ boundary_cone_call example_parent (Fin 3) (right_boundary ?c)"
    by blast
  from cones_sampled_for_boundaries [OF paint]
  have marks: "cone_ellipses (fst (snd ?paint))
      = cones_displayed example_extern (fst ?paint) (cone_calls (fst (snd ?paint)))"
    by blast
  have raised: "snd (snd ?paint_nan) \<noteq> None"
    by code_simp
  have paint_nan: "?paint_nan = (fst ?paint_nan, fst (snd ?paint_nan), snd (snd ?paint_nan))"
    by simp
  from cones_sampled_for_boundaries [OF paint_nan] raised
  have none: "cone_calls (fst (snd ?paint_nan)) = []"
    by blast
  from sampled marks none show ?thesis
    unfolding due state by simp
qed

subsection \<open>Boundaries over a history\<close>

lemma calculate_scaling_factors_keeps_boundaries:
  "left_boundary (fst (calculate_scaling_factors c)) = left_boundary c
   \<and> right_boundary (fst (calculate_scaling_factors c)) = right_boundary c"
  by (simp add: calculate_scaling_factors_def Let_def split: prod.splits sum.splits)

lemma paintEvent_keeps_boundaries:
  "left_boundary (fst (paintEvent env c par w h)) = left_boundary c
   \<and> right_boundary (fst (paintEvent env c par w h)) = right_boundary c"
  by (simp add: paintEvent_def Let_def split: prod.splits sum.splits)

lemma mouse_events_keep_canvas:
  "fst (mousePressEvent c pos) = c"
  "fst (mouseMoveEvent c par pos) = c"
  "fst (mouseReleaseEvent c pos) = c"
  by (simp_all add: mousePressEvent_def mouseMoveEvent_def mouseReleaseEvent_def
      split: prod.splits sum.splits)

lemma perform_boundaries:
  "(left_boundary (fst (perform env c call)), right_boundary (fst (perform env c call)))
     = last_passed (left_boundary c, right_boundary c) [call]"
proof (cases call)
  case (Pair par op)
  show ?thesis
    unfolding Pair
    by (cases op)
      (simp_all add: calculate_scaling_factors_keeps_boundaries paintEvent_keeps_boundaries
        mouse_events_keep_canvas update_drawing_def split: sum.splits)
qed

lemma last_passed_step:
  "last_passed bs (call # calls) = last_passed (last_passed bs [call]) calls"
proof (cases call)
  case (Pair par op)
  show ?thesis
    unfolding Pair by (cases op) simp_all
qed

lemma run_boundaries:
  "(left_boundary (run env c calls), right_boundary (run env c calls))
     = last_passed (left_boundary c, right_boundary c) calls"
proof (induction calls arbitrary: c)
  case Nil
  show ?case by simp
next
  case (Cons call calls)
  have "(left_boundary (run env c (call # calls)), right_boundary (run env c (call # calls)))
      = last_passed (left_boundary (fst (perform env c call)),
                     right_boundary (fst (perform env c call))) calls"
    using Cons.IH [of "fst (perform env c call)"] by simp
  also have "\<dots> = last_passed (last_passed (left_boundary c, right_boundary c) [call]) calls"
    by (simp only: perform_boundaries)
  also have "\<dots> = last_passed (left_boundary c, right_boundary c) (call # calls)"
    by (rule last_passed_step [symmetric])
  finally show ?case .
qed

lemma init_boundaries:
  assumes "init env par = Inr c"
  shows "left_boundary c = None \<and> right_boundary c = None"
  using assms
  by (auto simp add: init_def Let_def split: option.splits prod.splits sum.splits)

lemma last_passed_update:
  "last_passed bs (calls @ [(par, Update_drawing cps cl lb rb sw)]) = (lb, rb)"
proof (induction calls arbitrary: bs)
  case Nil
  show ?case by simp
next
  case (Cons call calls)
  show ?case
    using Cons.IH by (subst append_Cons, subst last_passed_step) simp
qed

lemma init_example: "init example_extern example_parent = Inr constructed_canvas"
  by code_simp

text \<open>
  C8. In every state reached from a constructed canvas by a sequence of calls of its
  methods, \<open>left_boundary\<close> and \<open>right_boundary\<close> are \<open>None\<close>, their initial values, if
  \<open>update_drawing\<close> was never called, and otherwise exactly the two values that the last
  call of \<open>update_drawing\<close> passed in: no other method assigns them.
\<close>

theorem boundaries_only_from_update_drawing:
  assumes "init env par = Inr c"
  shows "(left_boundary (run env c calls), right_boundary (run env c calls))
           = last_passed (None, None) calls"
  using run_boundaries [of env c calls] init_boundaries [OF assms] by simp

theorem boundaries_only_from_update_drawing_witness:
  "(left_boundary
      (run example_extern constructed_canvas
         [(example_parent, Update_drawing [] None (Some [Raw_point (Fin 1) (Fin 2)]) None False),
          (example_parent, PaintEvent 600 300),
          (example_parent, MousePressEvent (QPoint 10 20)),
          (example_parent, Update_drawing [] None (Some [Raw_point (Fin 3) (Fin 4)])
             (Some [Raw_point (Fin 5) (Fin 6)]) True),
          (example_parent, MouseReleaseEvent (QPoint 10 20)),
          (example_parent, PaintEvent 200 300)]),
    right_boundary
      (run example_extern constructed_canvas
         [(example_parent, Update_drawing [] None (Some [Raw_point (Fin 1) (Fin 2)]) None False),
          (example_parent, PaintEvent 600 300),
          (example_parent, MousePressEvent (QPoint 10 20)),
          (example_parent, Update_drawing [] None (Some [Raw_point (Fin 3) (Fin 4)])
             (Some [Raw_point (Fin 5) (Fin 6)]) True),
          (example_parent, MouseReleaseEvent (QPoint 10 20)),
          (example_parent, PaintEvent 200 300)]))
   = (Some [Raw_point (Fin 3) (Fin 4)], Some [Raw_point (Fin 5) (Fin 6)])"
proof -
  let ?history =
    "[(example_parent, Update_drawing [] None (Some [Raw_point (Fin 1) (Fin 2)]) None False),
      (example_parent, PaintEvent 600 300),
      (example_parent, MousePressEvent (QPoint 10 20)),
      (example_parent, Update_drawing [] None (Some [Raw_point (Fin 3) (Fin 4)])
         (Some [Raw_point (Fin 5) (Fin 6)]) True),
      (example_parent, MouseReleaseEvent (QPoint 10 20)),
      (example_parent, PaintEvent 200 300)]"
  have "(left_boundary (run example_extern constructed_canvas ?history),
         right_boundary (run example_extern constructed_canvas ?history))
      = last_passed (None, None) ?history"
    by (rule boundaries_only_from_update_drawing [OF init_example])
  also have "last_passed (None, None) ?history
      = (Some [Raw_point (Fin 3) (Fin 4)], Some [Raw_point (Fin 5) (Fin 6)])"
    by simp
  finally show ?thesis .
qed

subsection \<open>The frame of update_drawing\<close>

text \<open>
  C9. \<open>update_drawing\<close> assigns the five fields \<open>control_points\<close>, \<open>centerline\<close>,
  \<open>left_boundary\<close>, \<open>right_boundary\<close> and \<open>boundaries_swapped\<close> to the values it is
  given and requests a repaint, without raising; the scales, the offsets, the satellite image
  and pixmap, the occupancy map, the obstacle polygons and the free regions are unchanged.
\<close>

theorem update_drawing_frame:
  "update_drawing c cps cl lb rb sw = (c', es, r) \<Longrightarrow>
     control_points c' = cps \<and> centerline c' = cl \<and> left_boundary c' = lb
     \<and> right_boundary c' = rb \<and> boundaries_swapped c' = sw
     \<and> es = [Update] \<and> r = None
     \<and> scale_x c' = scale_x c \<and> scale_y c' = scale_y c
     \<and> offset_x c' = offset_x c \<and> offset_y c' = offset_y c
     \<and> sat_image c' = sat_image c \<and> sat_pixmap c' = sat_pixmap c
     \<and> binary_map c' = binary_map c
     \<and> obstacle_polygons c' = obstacle_polygons c
     \<and> original_obstacle_polygons c' = original_obstacle_polygons c
     \<and> free_region c' = free_region c
     \<and> original_free_region c' = original_free_region c"
  by (auto simp add: update_drawing_def)

theorem update_drawing_frame_witness:
  "update_drawing blank_canvas [QPointF (Fin 1) (Fin 2)] None (Some [Raw_point (Fin 3) (Fin 4)]) None True
     = (blank_canvas\<lparr>control_points := [QPointF (Fin 1) (Fin 2)],
                     left_boundary := Some [Raw_point (Fin 3) (Fin 4)],
                     boundaries_swapped := True\<rparr>, [Update], None)
   \<and> scale_x (fst (update_drawing blank_canvas [QPointF (Fin 1) (Fin 2)] None
                    (Some [Raw_point (Fin 3) (Fin 4)]) None True)) = Fin 1"
proof -
  obtain c' es r where u: "update_drawing blank_canvas [QPointF (Fin 1) (Fin 2)] None
      (Some [Raw_point (Fin 3) (Fin 4)]) None True = (c', es, r)"
    by (cases "update_drawing blank_canvas [QPointF (Fin 1) (Fin 2)] None
      (Some [Raw_point (Fin 3) (Fin 4)]) None True") auto
  from update_drawing_frame [OF u] have "scale_x c' = scale_x blank_canvas"
    by blast
  then have "scale_x c' = Fin 1"
    by (simp add: blank_canvas_def)
  moreover have "update_drawing blank_canvas [QPointF (Fin 1) (Fin 2)] None
      (Some [Raw_point (Fin 3) (Fin 4)]) None True
     = (blank_canvas\<lparr>control_points := [QPointF (Fin 1) (Fin 2)],
                     left_boundary := Some [Raw_point (Fin 3) (Fin 4)],
                     boundaries_swapped := True\<rparr>, [Update], None)"
    by (simp add: update_drawing_def blank_canvas_def)
  ultimately show ?thesis
    using u by simp
qed

subsection \<open>Mouse release\<close>

text \<open>
  C10. \<open>mouseReleaseEvent\<close> hands the event position to \<^verbatim>\<open>handle_canvas_release\<close> as it
  is, the integer display coordinates of the cursor, in every state: it does not apply
  \<open>inverse_transform_point\<close>, so what the parent receives does not depend on the scale or
  the offset, and it never raises. Clicks and drags arrive in map coordinates instead.
\<close>

theorem mouse_release_forwards_display_position:
  "mouseReleaseEvent c pos = (c, [Handle_canvas_release pos], None)
   \<and> snd (mouseReleaseEvent (c\<lparr>scale_x := sx, scale_y := sy, offset_x := ox, offset_y := oy\<rparr>) pos)
     = snd (mouseReleaseEvent c pos)"
  by (simp add: mouseReleaseEvent_def)

text \<open>
  The two frames at work: at scale 2 by 4 a press at the display position \<open>(10, 20)\<close>
  reports the map position \<open>(5, 5)\<close>, the release at the same place reports \<open>(10, 20)\<close>.
\<close>

lemma press_and_release_frames_differ:
  "snd (mousePressEvent (blank_canvas\<lparr>scale_x := Fin 2, scale_y := Fin 4\<rparr>) (QPoint 10 20))
     = ([Handle_canvas_click (QPointF (Fin 5) (Fin 5))], None)
   \<and> snd (mouseReleaseEvent (blank_canvas\<lparr>scale_x := Fin 2, scale_y := Fin 4\<rparr>) (QPoint 10 20))
     = ([Handle_canvas_release (QPoint 10 20)], None)"
  by code_simp

end
